theory Spec2Isabelle
  imports Main
begin

section \<open>HashEnv: encrypted, versioned, access-controlled environment files\<close>

text \<open>
  A shallow embedding of the backend of HashEnv: the AES-256-GCM envelope of
  \<^verbatim>\<open>lib/crypto.ts\<close>, the permission middleware of \<^verbatim>\<open>lib/authorization.ts\<close>, the audit
  logger of \<^verbatim>\<open>lib/logging.ts\<close> and the route handlers for environment files, project
  members and the panic button. Every function takes the world (the collections of the
  document store, the process environment, the random source and a trace of the calls
  made) and returns the world it leaves behind; an exception of the source is the value
  \<open>Inl\<close> of a sum.
\<close>

subsection \<open>Values\<close>

text \<open>
  An ObjectId is the string that \<^verbatim>\<open>toString()\<close> prints. A JavaScript string is its list
  of UTF-16 code units, a Buffer its list of bytes.
\<close>

type_synonym oid = string
type_synonym jsString = "nat list"
type_synonym buffer = "nat list"

datatype permission = Read | Write

datatype logAction = Upload | Download | Edit | Delete | Access

record member =
  m_userId :: oid
  m_permission :: permission

record project =
  p_id :: oid
  p_name :: string
  p_createdBy :: oid
  p_members :: "member list"

subsection \<open>The runtime: \<^verbatim>\<open>crypto\<close> and \<^verbatim>\<open>Buffer\<close> of Node.js\<close>

text \<open>
  The AES-256-GCM primitive and the base64 decoder belong to the Node.js runtime, not to
  the repository; they are parameters of the model. \<open>gcmEncrypt key iv plaintext\<close> is what
  \<^verbatim>\<open>createCipheriv('aes-256-gcm', key, iv)\<close> followed by \<^verbatim>\<open>update\<close>, \<^verbatim>\<open>final\<close> and
  \<^verbatim>\<open>getAuthTag\<close> yields (ciphertext and tag); \<open>gcmDecrypt key iv ciphertext tag\<close> is what
  \<^verbatim>\<open>createDecipheriv\<close>, \<^verbatim>\<open>setAuthTag\<close>, \<^verbatim>\<open>update\<close> and \<^verbatim>\<open>final\<close> yield, \<open>None\<close> when
  \<^verbatim>\<open>final\<close> throws.
\<close>

record nodeRuntime =
  gcmEncrypt :: "buffer \<Rightarrow> buffer \<Rightarrow> buffer \<Rightarrow> buffer \<times> buffer"
  gcmDecrypt :: "buffer \<Rightarrow> buffer \<Rightarrow> buffer \<Rightarrow> buffer \<Rightarrow> buffer option"
  base64Decode :: "string \<Rightarrow> buffer"

text \<open>
  What the model expects of an authenticated cipher: under a 32-byte key and a 16-byte
  nonce the tag has 16 bytes and decryption inverts encryption.
\<close>

definition aeadCorrect :: "nodeRuntime \<Rightarrow> bool" where
  "aeadCorrect rt \<longleftrightarrow>
     (\<forall>key iv pt. length key = 32 \<and> length iv = 16 \<longrightarrow>
        (case gcmEncrypt rt key iv pt of
           (ct, tag) \<Rightarrow> length tag = 16 \<and> gcmDecrypt rt key iv ct tag = Some pt))"

subsubsection \<open>UTF-8, as \<^verbatim>\<open>Buffer\<close> encodes and decodes it\<close>

definition isHighSurrogate :: "nat \<Rightarrow> bool" where
  "isHighSurrogate u \<longleftrightarrow> 0xD800 \<le> u \<and> u < 0xDC00"

definition isLowSurrogate :: "nat \<Rightarrow> bool" where
  "isLowSurrogate u \<longleftrightarrow> 0xDC00 \<le> u \<and> u < 0xE000"

definition isContinuation :: "nat \<Rightarrow> bool" where
  "isContinuation b \<longleftrightarrow> 0x80 \<le> b \<and> b < 0xC0"

definition utf8OfCodePoint :: "nat \<Rightarrow> buffer" where
  "utf8OfCodePoint c =
     (if c < 0x80 then [c]
      else if c < 0x800 then [0xC0 + c div 64, 0x80 + c mod 64]
      else if c < 0x10000 then
        [0xE0 + c div 4096, 0x80 + (c div 64) mod 64, 0x80 + c mod 64]
      else
        [0xF0 + c div 262144, 0x80 + (c div 4096) mod 64,
         0x80 + (c div 64) mod 64, 0x80 + c mod 64])"

definition codeUnitsOf :: "nat \<Rightarrow> jsString" where
  "codeUnitsOf c =
     (if c < 0x10000 then [c]
      else [0xD800 + (c - 0x10000) div 1024, 0xDC00 + (c - 0x10000) mod 1024])"

text \<open>
  Encoding a string (\<^verbatim>\<open>cipher.update(data, 'utf8')\<close>): a surrogate pair is one code
  point of four bytes; a surrogate without its partner is written as U+FFFD.
\<close>

fun utf8Encode :: "jsString \<Rightarrow> buffer" where
  "utf8Encode [] = []"
| "utf8Encode [u] =
     utf8OfCodePoint (if isHighSurrogate u \<or> isLowSurrogate u then 0xFFFD else u)"
| "utf8Encode (u # v # us) =
     (if isHighSurrogate u \<and> isLowSurrogate v then
        utf8OfCodePoint (0x10000 + (u - 0xD800) * 1024 + (v - 0xDC00)) @ utf8Encode us
      else
        utf8OfCodePoint (if isHighSurrogate u \<or> isLowSurrogate u then 0xFFFD else u)
          @ utf8Encode (v # us))"

text \<open>
  Decoding a buffer (\<^verbatim>\<open>buf.toString('utf8')\<close>): every ill-formed sequence becomes one
  U+FFFD and decoding resumes at the byte that broke it. The second byte of a three- or
  four-byte sequence has a range of its own, which keeps out overlong forms, surrogates
  and code points above U+10FFFF.
\<close>

definition secondByteOk :: "nat \<Rightarrow> nat \<Rightarrow> bool" where
  "secondByteOk b0 b1 \<longleftrightarrow>
     (if b0 = 0xE0 then 0xA0 \<le> b1 \<and> b1 < 0xC0
      else if b0 = 0xED then 0x80 \<le> b1 \<and> b1 < 0xA0
      else if b0 = 0xF0 then 0x90 \<le> b1 \<and> b1 < 0xC0
      else if b0 = 0xF4 then 0x80 \<le> b1 \<and> b1 < 0x90
      else isContinuation b1)"

fun utf8Decode :: "buffer \<Rightarrow> jsString" where
  "utf8Decode [] = []"
| "utf8Decode (b0 # bs) =
     (if b0 < 0x80 then b0 # utf8Decode bs
      else if 0xC2 \<le> b0 \<and> b0 < 0xE0 then
        (case bs of
           [] \<Rightarrow> [0xFFFD]
         | b1 # r1 \<Rightarrow>
             if isContinuation b1
             then ((b0 - 0xC0) * 64 + (b1 - 0x80)) # utf8Decode r1
             else 0xFFFD # utf8Decode bs)
      else if 0xE0 \<le> b0 \<and> b0 < 0xF0 then
        (case bs of
           [] \<Rightarrow> [0xFFFD]
         | b1 # r1 \<Rightarrow>
             if secondByteOk b0 b1 then
               (case r1 of
                  [] \<Rightarrow> [0xFFFD]
                | b2 # r2 \<Rightarrow>
                    if isContinuation b2
                    then ((b0 - 0xE0) * 4096 + (b1 - 0x80) * 64 + (b2 - 0x80))
                           # utf8Decode r2
                    else 0xFFFD # utf8Decode r1)
             else 0xFFFD # utf8Decode bs)
      else if 0xF0 \<le> b0 \<and> b0 < 0xF5 then
        (case bs of
           [] \<Rightarrow> [0xFFFD]
         | b1 # r1 \<Rightarrow>
             if secondByteOk b0 b1 then
               (case r1 of
                  [] \<Rightarrow> [0xFFFD]
                | b2 # r2 \<Rightarrow>
                    if isContinuation b2 then
                      (case r2 of
                         [] \<Rightarrow> [0xFFFD]
                       | b3 # r3 \<Rightarrow>
                           if isContinuation b3
                           then codeUnitsOf ((b0 - 0xF0) * 262144 + (b1 - 0x80) * 4096
                                   + (b2 - 0x80) * 64 + (b3 - 0x80))
                                  @ utf8Decode r3
                           else 0xFFFD # utf8Decode r2)
                    else 0xFFFD # utf8Decode r1)
             else 0xFFFD # utf8Decode bs)
      else 0xFFFD # utf8Decode bs)"

text \<open>
  A string is well formed when its code units are 16-bit values and every surrogate is
  half of a pair.
\<close>

fun wellFormed :: "jsString \<Rightarrow> bool" where
  "wellFormed [] = True"
| "wellFormed [u] = (u < 0x10000 \<and> \<not> isHighSurrogate u \<and> \<not> isLowSurrogate u)"
| "wellFormed (u # v # us) =
     (if isHighSurrogate u then isLowSurrogate v \<and> wellFormed us
      else u < 0x10000 \<and> \<not> isLowSurrogate u \<and> wellFormed (v # us))"

subsection \<open>The document store\<close>

record user =
  u_id :: oid
  u_name :: string
  u_email :: string

record envFile =
  ef_id :: oid
  ef_projectId :: oid
  ef_environment :: string
  ef_encryptedData :: buffer
  ef_iv :: buffer
  ef_authTag :: buffer
  ef_version :: nat
  ef_uploadedBy :: oid
  ef_createdAt :: nat

record logMetadata =
  oldVersion :: "nat option"
  newVersion :: "nat option"
  fileName :: "string option"

record envLog =
  l_projectId :: oid
  l_envFileId :: "oid option"
  l_environment :: string
  l_version :: "nat option"
  l_action :: logAction
  l_performedBy :: oid
  l_performedByEmail :: string
  l_performedByName :: string
  l_metadata :: logMetadata
  l_createdAt :: nat

record secret =
  s_id :: oid
  s_projectId :: oid
  s_name :: string
  s_encryptedData :: buffer
  s_iv :: buffer
  s_authTag :: buffer
  s_createdBy :: oid

record panicButton =
  flushEnvs :: bool
  revokeCollaborators :: bool
  downloadEnvs :: bool
  askConfirmation :: bool

record userSettings =
  us_userId :: oid
  us_flushDuration :: "nat option"
  us_panicButton :: panicButton

datatype model = User | Project | EnvFile | EnvLog | Secret | UserSettings

text \<open>
  The trace records, in order, every call on a model of the store, every call of
  \<^verbatim>\<open>logEnvAction\<close> and every line written with \<^verbatim>\<open>console.error\<close>.
\<close>

datatype event =
    Called model string
  | LogEnvActionCalled logAction
  | ConsoleError string

datatype cryptoError =
    KeyNotSet
  | InvalidKey
  | InvalidIvLength nat
  | InvalidAuthTagLength nat
  | DecryptionFailed

datatype exn =
    StoreFailure model
  | ValidationFailure model
  | DuplicateKey model
  | Crypto cryptoError

text \<open>
  The world of one process: the six collections, the models whose calls fail (\<open>down\<close>),
  the environment variable holding the master key, the runtime, the random source with
  the number of bytes drawn from it, the ObjectIds the driver hands out with the number
  handed out, the clock, and the trace.
\<close>

record world =
  users :: "user list"
  projects :: "project list"
  envFiles :: "envFile list"
  envLogs :: "envLog list"
  secrets :: "secret list"
  settings :: "userSettings list"
  down :: "model set"
  MASTER_ENCRYPTION_KEY :: "string option"
  runtime :: nodeRuntime
  entropy :: "nat \<Rightarrow> nat"
  drawn :: nat
  objectIds :: "nat \<Rightarrow> oid"
  handedOut :: nat
  now :: nat
  trace :: "event list"

type_synonym 'a action = "world \<Rightarrow> (exn + 'a) \<times> world"

definition ret :: "'a \<Rightarrow> 'a action" where
  "ret x w = (Inr x, w)"

definition throw :: "exn \<Rightarrow> 'a action" where
  "throw e w = (Inl e, w)"

text \<open>\<open>andThen m f\<close> is \<^verbatim>\<open>const x = await m; f(x)\<close>: an exception of \<open>m\<close> skips \<open>f\<close>.\<close>

definition andThen :: "'a action \<Rightarrow> ('a \<Rightarrow> 'b action) \<Rightarrow> 'b action" where
  "andThen m f w = (case m w of (Inl e, w1) \<Rightarrow> (Inl e, w1) | (Inr x, w1) \<Rightarrow> f x w1)"

definition consoleError :: "string \<Rightarrow> world \<Rightarrow> world" where
  "consoleError msg w = w\<lparr>trace := trace w @ [ConsoleError msg]\<rparr>"

text \<open>A call on a model is recorded, and throws when the model is down.\<close>

definition storeCall :: "model \<Rightarrow> string \<Rightarrow> (world \<Rightarrow> (exn + 'a) \<times> world) \<Rightarrow> 'a action" where
  "storeCall m opName f w =
     (let w1 = w\<lparr>trace := trace w @ [Called m opName]\<rparr>
      in if m \<in> down w then (Inl (StoreFailure m), w1) else f w1)"

fun replaceFirst :: "('a \<Rightarrow> bool) \<Rightarrow> 'a \<Rightarrow> 'a list \<Rightarrow> 'a list" where
  "replaceFirst P y [] = []"
| "replaceFirst P y (x # xs) = (if P x then y # xs else x # replaceFirst P y xs)"


definition environments :: "string list" where
  "environments = [''dev'', ''staging'', ''prod'']"

subsubsection \<open>\<^verbatim>\<open>User\<close>, \<^verbatim>\<open>Project\<close>, \<^verbatim>\<open>UserSettings\<close>\<close>

definition User_findById :: "oid \<Rightarrow> user option action" where
  "User_findById userId =
     storeCall User ''findById'' (\<lambda>w. (Inr (find (\<lambda>u. u_id u = userId) (users w)), w))"

definition Project_findById :: "oid \<Rightarrow> project option action" where
  "Project_findById projectId =
     storeCall Project ''findById''
       (\<lambda>w. (Inr (find (\<lambda>p. p_id p = projectId) (projects w)), w))"

definition Project_find_createdBy :: "oid \<Rightarrow> project list action" where
  "Project_find_createdBy userId =
     storeCall Project ''find''
       (\<lambda>w. (Inr (filter (\<lambda>p. p_createdBy p = userId) (projects w)), w))"

definition Project_save :: "project \<Rightarrow> unit action" where
  "Project_save p =
     storeCall Project ''save''
       (\<lambda>w. (Inr (), w\<lparr>projects := replaceFirst (\<lambda>q. p_id q = p_id p) p (projects w)\<rparr>))"

definition UserSettings_findOne :: "oid \<Rightarrow> userSettings option action" where
  "UserSettings_findOne userId =
     storeCall UserSettings ''findOne''
       (\<lambda>w. (Inr (find (\<lambda>s. us_userId s = userId) (settings w)), w))"

subsubsection \<open>\<^verbatim>\<open>EnvFile\<close>\<close>

text \<open>
  The response never carries the cryptographic fields
  (\<^verbatim>\<open>select('-encryptedData -iv -authTag')\<close>); \<^verbatim>\<open>populate('uploadedBy', 'name email')\<close>
  puts the uploader's record, or null, in place of the id.
\<close>

record envFileView =
  v_id :: oid
  v_projectId :: oid
  v_environment :: string
  v_version :: nat
  v_uploadedBy :: "user option"
  v_createdAt :: nat

text \<open>
  The schema: \<^verbatim>\<open>environment\<close> is one of the three names; the three buffers are
  required, and an empty Buffer does not pass Mongoose's \<^verbatim>\<open>required\<close>.
\<close>

definition validEnvFile :: "envFile \<Rightarrow> bool" where
  "validEnvFile f \<longleftrightarrow>
     ef_environment f \<in> set environments \<and> ef_encryptedData f \<noteq> [] \<and> ef_iv f \<noteq> []
       \<and> ef_authTag f \<noteq> []"



definition EnvFile_findOne :: "oid \<Rightarrow> oid \<Rightarrow> envFile option action" where
  "EnvFile_findOne envFileId projectId =
     storeCall EnvFile ''findOne''
       (\<lambda>w. (Inr (find (\<lambda>f. ef_id f = envFileId \<and> ef_projectId f = projectId) (envFiles w)),
              w))"


definition EnvFile_save :: "envFile \<Rightarrow> unit action" where
  "EnvFile_save doc =
     storeCall EnvFile ''save''
       (\<lambda>w. if \<not> validEnvFile doc then (Inl (ValidationFailure EnvFile), w)
             else (Inr (), w\<lparr>envFiles :=
                                replaceFirst (\<lambda>f. ef_id f = ef_id doc) doc (envFiles w)\<rparr>))"

definition populateUploadedBy :: "envFile \<Rightarrow> envFileView action" where
  "populateUploadedBy f =
     storeCall User ''populate''
       (\<lambda>w. (Inr \<lparr>v_id = ef_id f, v_projectId = ef_projectId f,
                    v_environment = ef_environment f, v_version = ef_version f,
                    v_uploadedBy = find (\<lambda>u. u_id u = ef_uploadedBy f) (users w),
                    v_createdAt = ef_createdAt f\<rparr>, w))"

definition EnvFile_findById_populate :: "oid \<Rightarrow> envFileView option action" where
  "EnvFile_findById_populate envFileId =
     andThen
       (storeCall EnvFile ''findById''
          (\<lambda>w. (Inr (find (\<lambda>f. ef_id f = envFileId) (envFiles w)), w)))
       (\<lambda>found. case found of
                   None \<Rightarrow> ret None
                 | Some f \<Rightarrow> andThen (populateUploadedBy f) (\<lambda>v. ret (Some v)))"


definition EnvFile_find_byProject :: "oid \<Rightarrow> envFile list action" where
  "EnvFile_find_byProject projectId =
     storeCall EnvFile ''find''
       (\<lambda>w. (Inr (rev (sort_key ef_createdAt
                          (filter (\<lambda>f. ef_projectId f = projectId) (envFiles w)))), w))"

definition EnvFile_countDocuments :: "oid list \<Rightarrow> nat action" where
  "EnvFile_countDocuments projectIds =
     storeCall EnvFile ''countDocuments''
       (\<lambda>w. (Inr (length (filter (\<lambda>f. ef_projectId f \<in> set projectIds) (envFiles w))), w))"

definition EnvFile_deleteMany :: "oid \<Rightarrow> unit action" where
  "EnvFile_deleteMany projectId =
     storeCall EnvFile ''deleteMany''
       (\<lambda>w. (Inr (), w\<lparr>envFiles := filter (\<lambda>f. ef_projectId f \<noteq> projectId) (envFiles w)\<rparr>))"

subsubsection \<open>\<^verbatim>\<open>EnvLog\<close>\<close>

definition validEnvLog :: "envLog \<Rightarrow> bool" where
  "validEnvLog e \<longleftrightarrow>
     l_environment e \<in> set environments \<and> l_performedByEmail e \<noteq> []
       \<and> l_performedByName e \<noteq> []"

definition EnvLog_create :: "envLog \<Rightarrow> unit action" where
  "EnvLog_create entry =
     storeCall EnvLog ''create''
       (\<lambda>w. if \<not> validEnvLog entry then (Inl (ValidationFailure EnvLog), w)
             else (Inr (), w\<lparr>envLogs := envLogs w @ [entry\<lparr>l_createdAt := now w\<rparr>]\<rparr>))"

subsection \<open>\<^verbatim>\<open>lib/crypto.ts\<close>\<close>

definition KEY_LENGTH :: nat where "KEY_LENGTH = 32"
definition IV_LENGTH :: nat where "IV_LENGTH = 16"
definition AUTH_TAG_LENGTH :: nat where "AUTH_TAG_LENGTH = 16"

text \<open>
  \<^verbatim>\<open>getMasterKey\<close> throws when the variable is unset or empty and when the decoded key
  is not 32 bytes long.
\<close>

definition getMasterKey :: "world \<Rightarrow> cryptoError + buffer" where
  "getMasterKey w =
     (case MASTER_ENCRYPTION_KEY w of
        None \<Rightarrow> Inl KeyNotSet
      | Some keyBase64 \<Rightarrow>
          if keyBase64 = [] then Inl KeyNotSet
          else let key = base64Decode (runtime w) keyBase64
               in if length key \<noteq> KEY_LENGTH then Inl InvalidKey else Inr key)"

text \<open>\<^verbatim>\<open>crypto.randomBytes(n)\<close> takes the next \<open>n\<close> bytes of the random source.\<close>

definition randomBytes :: "nat \<Rightarrow> world \<Rightarrow> buffer \<times> world" where
  "randomBytes n w =
     (map (\<lambda>i. entropy w (drawn w + i) mod 256) [0..<n], w\<lparr>drawn := drawn w + n\<rparr>)"

definition encryptEnv :: "jsString \<Rightarrow> (buffer \<times> buffer \<times> buffer) action" where
  "encryptEnv data w =
     (case getMasterKey w of
        Inl e \<Rightarrow> (Inl (Crypto e), w)
      | Inr key \<Rightarrow>
          (case randomBytes IV_LENGTH w of
             (iv, w1) \<Rightarrow>
               (case gcmEncrypt (runtime w) key iv (utf8Encode data) of
                  (encryptedData, authTag) \<Rightarrow> (Inr (encryptedData, iv, authTag), w1))))"

definition decryptEnv :: "buffer \<Rightarrow> buffer \<Rightarrow> buffer \<Rightarrow> jsString action" where
  "decryptEnv encryptedData iv authTag w =
     (case getMasterKey w of
        Inl e \<Rightarrow> (Inl (Crypto e), w)
      | Inr key \<Rightarrow>
          if length iv \<noteq> IV_LENGTH then (Inl (Crypto (InvalidIvLength (length iv))), w)
          else if length authTag \<noteq> AUTH_TAG_LENGTH
          then (Inl (Crypto (InvalidAuthTagLength (length authTag))), w)
          else (case gcmDecrypt (runtime w) key iv encryptedData authTag of
                  None \<Rightarrow> (Inl (Crypto DecryptionFailed), w)
                | Some decrypted \<Rightarrow> (Inr (utf8Decode decrypted), w)))"

subsection \<open>Requests and responses\<close>

text \<open>
  A request after \<^verbatim>\<open>authenticate\<close> and \<^verbatim>\<open>multer\<close>: \<open>req_user\<close> is
  \<^verbatim>\<open>req.user?.userId\<close>; a route parameter the route does not have is the empty string;
  \<open>body_content\<close> is \<open>None\<close> when the body has no string \<^verbatim>\<open>content\<close>; \<open>req_file\<close> is the
  buffer of the uploaded file.
\<close>

record request =
  req_user :: "oid option"
  params_projectId :: string
  params_id :: string
  params_envFileId :: string
  params_userId :: string
  body_environment :: string
  body_content :: "jsString option"
  req_file :: "buffer option"

record backupEntry =
  b_projectName :: string
  b_environment :: string
  b_version :: nat
  b_content :: jsString

text \<open>
  The \<^verbatim>\<open>results\<close> object of the panic route. \<open>r_downloadContent\<close> holds the entries of
  the backup text in the order they are written, not the text itself.
\<close>

record panicResults =
  r_downloadEnvs :: bool
  r_flushEnvs :: bool
  r_revokeCollaborators :: bool
  r_downloadContent :: "backupEntry list option"
  r_downloadError :: bool
  r_flushedCount :: "nat option"
  r_flushError :: bool
  r_revokeError :: bool

datatype body =
    Error string
  | Errors "string list"
  | Message string
  | EnvFileJson "envFileView option" string
  | ContentJson jsString
  | ProjectJson "project option"
  | PanicJson panicResults

datatype reply = Reply nat body

definition isHexDigit :: "char \<Rightarrow> bool" where
  "isHexDigit c \<longleftrightarrow> c \<in> set ''0123456789abcdefABCDEF''"

definition isValidObjectId :: "string \<Rightarrow> bool" where
  "isValidObjectId s \<longleftrightarrow> length s = 24 \<and> list_all isHexDigit s"

subsection \<open>\<^verbatim>\<open>lib/authorization.ts\<close>\<close>

definition isProjectOwner :: "oid \<Rightarrow> project \<Rightarrow> bool" where
  "isProjectOwner userId p \<longleftrightarrow> p_createdBy p = userId"

definition getUserProjectPermission :: "oid \<Rightarrow> oid \<Rightarrow> permission option action" where
  "getUserProjectPermission userId projectId =
     andThen (Project_findById projectId)
       (\<lambda>found. case found of
          None \<Rightarrow> ret None
        | Some p \<Rightarrow>
            if isProjectOwner userId p then ret (Some Write)
            else (case find (\<lambda>m. m_userId m = userId) (p_members p) of
                    Some m \<Rightarrow> ret (Some (m_permission m))
                  | None \<Rightarrow> ret None))"

definition permissionName :: "permission \<Rightarrow> string" where
  "permissionName p = (case p of Read \<Rightarrow> ''read'' | Write \<Rightarrow> ''write'')"

text \<open>
  A middleware either answers the request (\<open>Inl\<close>) or calls \<^verbatim>\<open>next()\<close> with the project
  attached to the request (\<open>Inr\<close>).
\<close>

definition requireProjectAccess ::
  "permission \<Rightarrow> request \<Rightarrow> world \<Rightarrow> (reply + project) \<times> world" where
  "requireProjectAccess requiredPermission req w =
     (case req_user req of
        None \<Rightarrow> (Inl (Reply 401 (Error ''Authentication required'')), w)
      | Some userId \<Rightarrow>
          let projectId = (if params_projectId req \<noteq> [] then params_projectId req
                           else params_id req)
          in if projectId = [] then (Inl (Reply 400 (Error ''Project ID required'')), w)
             else if \<not> isValidObjectId projectId
             then (Inl (Reply 400 (Error ''Invalid project ID format'')), w)
             else
               (case Project_findById projectId w of
                  (Inl e, w1) \<Rightarrow>
                    (Inl (Reply 500 (Error ''Authorization error'')),
                     consoleError ''Authorization error:'' w1)
                | (Inr None, w1) \<Rightarrow> (Inl (Reply 404 (Error ''Project not found'')), w1)
                | (Inr (Some p), w1) \<Rightarrow>
                    if isProjectOwner userId p then (Inr p, w1)
                    else
                      (case find (\<lambda>m. m_userId m = userId) (p_members p) of
                         None \<Rightarrow>
                           (Inl (Reply 403 (Error
                              ''Access denied: You do not have access to this project'')), w1)
                       | Some m \<Rightarrow>
                           let hasAccess =
                                 (m_permission m = Write
                                  \<or> (requiredPermission = Read \<and> m_permission m = Read))
                           in if \<not> hasAccess then
                                (Inl (Reply 403 (Error
                                   (''Access denied: '' @ permissionName requiredPermission
                                      @ '' permission required''))), w1)
                              else (Inr p, w1))))"

definition requireProjectOwnership :: "request \<Rightarrow> world \<Rightarrow> (reply + project) \<times> world" where
  "requireProjectOwnership req w =
     (case req_user req of
        None \<Rightarrow> (Inl (Reply 401 (Error ''Authentication required'')), w)
      | Some userId \<Rightarrow>
          let projectId = (if params_projectId req \<noteq> [] then params_projectId req
                           else params_id req)
          in if projectId = [] then (Inl (Reply 400 (Error ''Project ID required'')), w)
             else if \<not> isValidObjectId projectId
             then (Inl (Reply 400 (Error ''Invalid project ID format'')), w)
             else
               (case Project_findById projectId w of
                  (Inl e, w1) \<Rightarrow>
                    (Inl (Reply 500 (Error ''Authorization error'')),
                     consoleError ''Project ownership check error:'' w1)
                | (Inr None, w1) \<Rightarrow> (Inl (Reply 404 (Error ''Project not found'')), w1)
                | (Inr (Some p), w1) \<Rightarrow>
                    if \<not> isProjectOwner userId p then
                      (Inl (Reply 403 (Error
                         ''Access denied: Only project owners can perform this action'')), w1)
                    else (Inr p, w1)))"

subsection \<open>\<^verbatim>\<open>lib/logging.ts\<close>\<close>

text \<open>The body of the \<^verbatim>\<open>try\<close> block of \<^verbatim>\<open>logEnvAction\<close>.\<close>

text \<open>
  The document handed to \<^verbatim>\<open>EnvLog.create\<close>; the store sets \<^verbatim>\<open>createdAt\<close> when it
  inserts it.
\<close>

definition envLogEntry ::
  "oid \<Rightarrow> oid \<Rightarrow> logAction \<Rightarrow> string \<Rightarrow> logMetadata option \<Rightarrow> oid option \<Rightarrow> nat option
     \<Rightarrow> user \<Rightarrow> envLog" where
  "envLogEntry projectId userId action environment metadata envFileId version u =
     \<lparr>l_projectId = projectId, l_envFileId = envFileId, l_environment = environment,
      l_version = version, l_action = action, l_performedBy = userId,
      l_performedByEmail = u_email u, l_performedByName = u_name u,
      l_metadata = (case metadata of
                      Some md \<Rightarrow> md
                    | None \<Rightarrow> \<lparr>oldVersion = None, newVersion = None, fileName = None\<rparr>),
      l_createdAt = 0\<rparr>"

definition logEnvAction_try ::
  "oid \<Rightarrow> oid \<Rightarrow> logAction \<Rightarrow> string \<Rightarrow> logMetadata option \<Rightarrow> oid option \<Rightarrow> nat option
     \<Rightarrow> unit action" where
  "logEnvAction_try projectId userId action environment metadata envFileId version =
     andThen (User_findById userId)
       (\<lambda>found. case found of
          None \<Rightarrow> (\<lambda>w. (Inr (), consoleError ''User not found for logging:'' w))
        | Some u \<Rightarrow>
            EnvLog_create
              (envLogEntry projectId userId action environment metadata envFileId version u))"

text \<open>The \<^verbatim>\<open>catch\<close> writes one line to the console and returns.\<close>

definition logEnvAction ::
  "oid \<Rightarrow> oid \<Rightarrow> logAction \<Rightarrow> string \<Rightarrow> logMetadata option \<Rightarrow> oid option \<Rightarrow> nat option
     \<Rightarrow> unit action" where
  "logEnvAction projectId userId action environment metadata envFileId version w =
     (case logEnvAction_try projectId userId action environment metadata envFileId version
             (w\<lparr>trace := trace w @ [LogEnvActionCalled action]\<rparr>) of
        (Inl e, w1) \<Rightarrow> (Inr (), consoleError ''Failed to log env action:'' w1)
      | (Inr u, w1) \<Rightarrow> (Inr u, w1))"

subsection \<open>Routes\<close>

text \<open>
  A route is its guarding middleware followed by its handler; the handler receives the
  project the middleware attached. The \<^verbatim>\<open>catch\<close> of a handler writes a line to the
  console and answers 500.
\<close>

definition route ::
  "(request \<Rightarrow> world \<Rightarrow> (reply + project) \<times> world)
     \<Rightarrow> (request \<Rightarrow> project \<Rightarrow> world \<Rightarrow> reply \<times> world) \<Rightarrow> request \<Rightarrow> world \<Rightarrow> reply \<times> world" where
  "route guard handler req w =
     (case guard req w of (Inl r, w1) \<Rightarrow> (r, w1) | (Inr p, w1) \<Rightarrow> handler req p w1)"

definition catchAll :: "string \<Rightarrow> string \<Rightarrow> reply action \<Rightarrow> world \<Rightarrow> reply \<times> world" where
  "catchAll logLine message handler w =
     (case handler w of
        (Inl e, w1) \<Rightarrow> (Reply 500 (Error message), consoleError logLine w1)
      | (Inr r, w1) \<Rightarrow> (r, w1))"


definition validateEnvFileId :: "request \<Rightarrow> string list" where
  "validateEnvFileId req =
     (if isValidObjectId (params_envFileId req) then []
      else [''Invalid environment file ID format''])"

definition validateFileContent :: "request \<Rightarrow> string list" where
  "validateFileContent req =
     (case body_content req of
        None \<Rightarrow> [''Content must be a string'']
      | Some c \<Rightarrow>
          if c \<noteq> [] \<and> 50 * 1024 < length c then [''Content size must be less than 50KB'']
          else [])"

subsubsection \<open>\<^verbatim>\<open>POST /:projectId/env\<close>: upload\<close>




subsubsection \<open>\<^verbatim>\<open>GET /:projectId/env/:envFileId/content\<close>: content for editing\<close>

definition getEnvContent_handler :: "request \<Rightarrow> project \<Rightarrow> world \<Rightarrow> reply \<times> world" where
  "getEnvContent_handler req p =
     catchAll ''Get env file content error:'' ''Failed to get environment file content''
       (let projectId = params_projectId req; envFileId = params_envFileId req
        in if \<not> isValidObjectId projectId \<or> \<not> isValidObjectId envFileId
           then ret (Reply 400 (Error ''Invalid ID format''))
           else
             andThen (EnvFile_findOne envFileId projectId)
               (\<lambda>found. case found of
                  None \<Rightarrow> ret (Reply 404 (Error ''Environment file not found''))
                | Some envFile \<Rightarrow>
                    andThen (decryptEnv (ef_encryptedData envFile) (ef_iv envFile)
                               (ef_authTag envFile))
                      (\<lambda>plaintextData. ret (Reply 200 (ContentJson plaintextData)))))"

definition getEnvContent :: "request \<Rightarrow> world \<Rightarrow> reply \<times> world" where
  "getEnvContent = route (requireProjectAccess Read) getEnvContent_handler"

subsubsection \<open>\<^verbatim>\<open>PUT /:projectId/env/:envFileId\<close>: edit in place\<close>

text \<open>
  After the validators have passed the content is a string; the branch for a missing
  content below is never taken.
\<close>

definition putEnv_handler :: "request \<Rightarrow> project \<Rightarrow> world \<Rightarrow> reply \<times> world" where
  "putEnv_handler req p =
     catchAll ''Edit env file error:'' ''Failed to update environment file''
       (let errors = validateEnvFileId req @ validateFileContent req
        in if errors \<noteq> [] then ret (Reply 400 (Errors errors))
           else
             (case (req_user req, body_content req) of
                (None, _) \<Rightarrow> ret (Reply 401 (Error ''Not authenticated''))
              | (Some userId, None) \<Rightarrow> ret (Reply 400 (Errors errors))
              | (Some userId, Some content) \<Rightarrow>
                  let projectId = params_projectId req; envFileId = params_envFileId req
                  in andThen (EnvFile_findOne envFileId projectId)
                       (\<lambda>found. case found of
                          None \<Rightarrow> ret (Reply 404 (Error ''Environment file not found''))
                        | Some envFile \<Rightarrow>
                            let oldVersion = ef_version envFile
                            in
                            andThen (encryptEnv content)
                              (\<lambda>(encryptedData, iv, authTag).
                            andThen (EnvFile_save
                                       (envFile\<lparr>ef_encryptedData := encryptedData,
                                                ef_iv := iv, ef_authTag := authTag\<rparr>))
                              (\<lambda>_.
                            andThen (logEnvAction projectId userId Edit
                                       (ef_environment envFile)
                                       (Some \<lparr>oldVersion = Some oldVersion,
                                              newVersion = Some oldVersion,
                                              fileName = None\<rparr>)
                                       (Some envFileId) (Some oldVersion))
                              (\<lambda>_.
                            andThen (EnvFile_findById_populate (ef_id envFile))
                              (\<lambda>populatedEnvFile.
                            ret (Reply 200 (EnvFileJson populatedEnvFile
                                   ''Environment file updated successfully'')))))))))"

definition putEnv :: "request \<Rightarrow> world \<Rightarrow> reply \<times> world" where
  "putEnv = route requireProjectOwnership putEnv_handler"

subsubsection \<open>\<^verbatim>\<open>DELETE /:projectId/env/:envFileId\<close>\<close>



subsubsection \<open>\<^verbatim>\<open>DELETE /:id/members/:userId\<close>\<close>

text \<open>
  The body of the response is the saved project; the names and addresses that
  \<^verbatim>\<open>populate\<close> puts in it are left out, the query it makes on \<^verbatim>\<open>User\<close> is kept.
\<close>

definition Project_findById_populate :: "oid \<Rightarrow> project option action" where
  "Project_findById_populate projectId =
     andThen (Project_findById projectId)
       (\<lambda>found. case found of
          None \<Rightarrow> ret None
        | Some p \<Rightarrow> storeCall User ''populate'' (\<lambda>w. (Inr (Some p), w)))"

definition deleteMember_handler :: "request \<Rightarrow> project \<Rightarrow> world \<Rightarrow> reply \<times> world" where
  "deleteMember_handler req p =
     catchAll ''Remove member error:'' ''Failed to remove member''
       (let userId = params_userId req
        in if \<not> isValidObjectId userId
           then ret (Reply 400 (Error ''Invalid user ID format''))
           else
             andThen (Project_save
                        (p\<lparr>p_members := filter (\<lambda>m. m_userId m \<noteq> userId) (p_members p)\<rparr>))
               (\<lambda>_.
             andThen (Project_findById_populate (params_id req))
               (\<lambda>populatedProject. ret (Reply 200 (ProjectJson populatedProject)))))"

definition deleteMember :: "request \<Rightarrow> world \<Rightarrow> reply \<times> world" where
  "deleteMember = route requireProjectOwnership deleteMember_handler"

subsubsection \<open>\<^verbatim>\<open>POST /panic\<close>\<close>

text \<open>
  \<^verbatim>\<open>latestByEnv\<close> is an object keyed by environment; its keys are listed in the order
  in which they were first set.
\<close>

definition latestByEnv :: "envFile list \<Rightarrow> (string \<times> envFile) list" where
  "latestByEnv projectEnvs =
     fold (\<lambda>envFile acc.
             case map_of acc (ef_environment envFile) of
               None \<Rightarrow> acc @ [(ef_environment envFile, envFile)]
             | Some cur \<Rightarrow>
                 if ef_version cur < ef_version envFile
                 then map (\<lambda>(k, v). if k = ef_environment envFile then (k, envFile) else (k, v))
                        acc
                 else acc)
       projectEnvs []"

text \<open>A row that does not decrypt is reported on the console and left out.\<close>

fun decryptLatest ::
  "project \<Rightarrow> (string \<times> envFile) list \<Rightarrow> backupEntry list \<Rightarrow> backupEntry list action" where
  "decryptLatest project [] acc w = (Inr acc, w)"
| "decryptLatest project ((env, envFile) # rest) acc w =
     (case decryptEnv (ef_encryptedData envFile) (ef_iv envFile) (ef_authTag envFile) w of
        (Inr decryptedContent, w1) \<Rightarrow>
          decryptLatest project rest
            (acc @ [\<lparr>b_projectName = p_name project, b_environment = env,
                      b_version = ef_version envFile, b_content = decryptedContent\<rparr>]) w1
      | (Inl e, w1) \<Rightarrow>
          decryptLatest project rest acc (consoleError ''Failed to decrypt env'' w1))"

fun collectBackups :: "project list \<Rightarrow> backupEntry list \<Rightarrow> backupEntry list action" where
  "collectBackups [] acc = ret acc"
| "collectBackups (project # rest) acc =
     andThen (EnvFile_find_byProject (p_id project))
       (\<lambda>projectEnvs.
     andThen (decryptLatest project (latestByEnv projectEnvs) acc)
       (\<lambda>acc1. collectBackups rest acc1))"

fun forEach :: "'a list \<Rightarrow> ('a \<Rightarrow> unit action) \<Rightarrow> unit action" where
  "forEach [] f = ret ()"
| "forEach (x # xs) f = andThen (f x) (\<lambda>_. forEach xs f)"

definition downloadStep ::
  "project list \<Rightarrow> panicResults \<Rightarrow> world \<Rightarrow> panicResults \<times> world" where
  "downloadStep owned results w =
     (case collectBackups owned [] w of
        (Inr entries, w1) \<Rightarrow>
          (results\<lparr>r_downloadEnvs := True, r_downloadContent := Some entries\<rparr>, w1)
      | (Inl e, w1) \<Rightarrow>
          (results\<lparr>r_downloadError := True\<rparr>, consoleError ''Download envs error:'' w1))"

definition flushStep ::
  "project list \<Rightarrow> panicResults \<Rightarrow> world \<Rightarrow> panicResults \<times> world" where
  "flushStep owned results w =
     (case andThen (EnvFile_countDocuments (map p_id owned))
             (\<lambda>countBefore.
           andThen (forEach owned (\<lambda>project. EnvFile_deleteMany (p_id project)))
             (\<lambda>_. ret countBefore)) w of
        (Inr countBefore, w1) \<Rightarrow>
          (results\<lparr>r_flushEnvs := True, r_flushedCount := Some countBefore\<rparr>, w1)
      | (Inl e, w1) \<Rightarrow>
          (results\<lparr>r_flushError := True\<rparr>, consoleError ''Flush envs error:'' w1))"

definition revokeStep ::
  "project list \<Rightarrow> panicResults \<Rightarrow> world \<Rightarrow> panicResults \<times> world" where
  "revokeStep owned results w =
     (case forEach owned (\<lambda>project. Project_save (project\<lparr>p_members := []\<rparr>)) w of
        (Inr u, w1) \<Rightarrow> (results\<lparr>r_revokeCollaborators := True\<rparr>, w1)
      | (Inl e, w1) \<Rightarrow>
          (results\<lparr>r_revokeError := True\<rparr>, consoleError ''Revoke collaborators error:'' w1))"

definition postPanic :: "request \<Rightarrow> world \<Rightarrow> reply \<times> world" where
  "postPanic req =
     catchAll ''Panic button error:'' ''Failed to execute panic actions''
       (case req_user req of
          None \<Rightarrow> ret (Reply 401 (Error ''Not authenticated''))
        | Some userId \<Rightarrow>
            andThen (UserSettings_findOne userId)
              (\<lambda>found. case found of
                 None \<Rightarrow> ret (Reply 400 (Error ''Panic button not configured''))
               | Some s \<Rightarrow>
                   let pb = us_panicButton s
                   in if \<not> flushEnvs pb \<and> \<not> revokeCollaborators pb \<and> \<not> downloadEnvs pb
                      then ret (Reply 400 (Error ''No panic actions configured''))
                      else
                        andThen (Project_find_createdBy userId)
                          (\<lambda>owned w.
                             let results = \<lparr>r_downloadEnvs = False, r_flushEnvs = False,
                                            r_revokeCollaborators = False,
                                            r_downloadContent = None, r_downloadError = False,
                                            r_flushedCount = None, r_flushError = False,
                                            r_revokeError = False\<rparr>;
                                 (results1, w1) =
                                   (if downloadEnvs pb then downloadStep owned results w
                                    else (results, w));
                                 (results2, w2) =
                                   (if flushEnvs pb then flushStep owned results1 w1
                                    else (results1, w1));
                                 (results3, w3) =
                                   (if revokeCollaborators pb then revokeStep owned results2 w2
                                    else (results2, w2))
                             in (Inr (Reply 200 (PanicJson results3)), w3))))"

subsection \<open>Sequences of requests\<close>




subsection \<open>Observations\<close>

text \<open>
  \<open>eventsSince w w'\<close> are the events a computation from \<open>w\<close> to \<open>w'\<close> added to the trace.
  \<open>removalsAudited seen evs\<close> holds when every call of \<^verbatim>\<open>EnvFile.findByIdAndDelete\<close> in
  \<open>evs\<close> comes after a call of \<^verbatim>\<open>logEnvAction\<close> with the action delete (\<open>seen\<close>: such a
  call has been made before \<open>evs\<close>).
\<close>

definition eventsSince :: "world \<Rightarrow> world \<Rightarrow> event list" where
  "eventsSince w w1 = drop (length (trace w)) (trace w1)"


text \<open>\<open>traceOnly w w'\<close>: the two worlds differ in the trace at most.\<close>

definition traceOnly :: "world \<Rightarrow> world \<Rightarrow> bool" where
  "traceOnly w w1 \<longleftrightarrow> w1 = w\<lparr>trace := trace w1\<rparr>"

text \<open>\<open>auditOnly w w'\<close>: the two worlds differ in the audit log and the trace at most.\<close>

definition auditOnly :: "world \<Rightarrow> world \<Rightarrow> bool" where
  "auditOnly w w1 \<longleftrightarrow> w1 = w\<lparr>envLogs := envLogs w1, trace := trace w1\<rparr>"

text \<open>The events \<^verbatim>\<open>logEnvAction\<close> can add after the one that marks its call.\<close>

definition auditEvents :: "event set" where
  "auditEvents = {Called User ''findById'', Called EnvLog ''create'',
                  ConsoleError ''User not found for logging:'',
                  ConsoleError ''Failed to log env action:''}"

text \<open>
  \<open>keeps R m\<close>: whatever the world, \<open>m\<close> leaves a world related to it by \<open>R\<close>. The
  relations used are reflexive and transitive and hold between a world and the same
  world with another trace (\<open>frameRel\<close>).
\<close>

definition keeps :: "(world \<Rightarrow> world \<Rightarrow> bool) \<Rightarrow> (world \<Rightarrow> 'a \<times> world) \<Rightarrow> bool" where
  "keeps R m \<longleftrightarrow> (\<forall>w. R w (snd (m w)))"

definition frameRel :: "(world \<Rightarrow> world \<Rightarrow> bool) \<Rightarrow> bool" where
  "frameRel R \<longleftrightarrow>
     (\<forall>w. R w w) \<and> (\<forall>w w1 w2. R w w1 \<longrightarrow> R w1 w2 \<longrightarrow> R w w2) \<and> (\<forall>w t. R w (w\<lparr>trace := t\<rparr>))"

subsection \<open>A small deployment\<close>

text \<open>
  The examples below run the model on a deployment with three users and two projects.
  A shift cipher stands in for AES-256-GCM: it adds a number derived from key and nonce
  to every byte and uses that number, sixteen times, as the tag.
\<close>

definition shiftPad :: "buffer \<Rightarrow> buffer \<Rightarrow> nat" where
  "shiftPad key iv = sum_list key + sum_list iv"

definition shiftCipher :: nodeRuntime where
  "shiftCipher =
     \<lparr>gcmEncrypt = (\<lambda>key iv pt. (map (\<lambda>b. b + shiftPad key iv) pt,
                                  replicate 16 (shiftPad key iv mod 256))),
      gcmDecrypt = (\<lambda>key iv ct tag.
                      if tag = replicate 16 (shiftPad key iv mod 256)
                      then Some (map (\<lambda>b. b - shiftPad key iv) ct) else None),
      base64Decode = map of_char\<rparr>"

definition aliceId :: oid where "aliceId = ''a00000000000000000000001''"
definition bobId :: oid where "bobId = ''b00000000000000000000002''"
definition carolId :: oid where "carolId = ''c00000000000000000000003''"
definition daveId :: oid where "daveId = ''d00000000000000000000004''"
definition shopId :: oid where "shopId = ''100000000000000000000001''"
definition blogId :: oid where "blogId = ''200000000000000000000002''"

definition shop :: project where
  "shop = \<lparr>p_id = shopId, p_name = ''shop'', p_createdBy = aliceId,
           p_members = [\<lparr>m_userId = bobId, m_permission = Read\<rparr>,
                        \<lparr>m_userId = carolId, m_permission = Write\<rparr>]\<rparr>"

definition blog :: project where
  "blog = \<lparr>p_id = blogId, p_name = ''blog'', p_createdBy = bobId,
           p_members = [\<lparr>m_userId = aliceId, m_permission = Write\<rparr>]\<rparr>"

definition exampleKey :: buffer where
  "exampleKey = map of_char ''kkkkkkkkkkkkkkkkkkkkkkkkkkkkkkkk''"

definition exampleIv :: buffer where
  "exampleIv = [0, 1, 2, 3, 4, 5, 6, 7, 8, 9, 10, 11, 12, 13, 14, 15]"

text \<open>A row holding \<open>content\<close> as the shift cipher seals it under a key of 32 bytes 107.\<close>

definition sealedRow :: "oid \<Rightarrow> oid \<Rightarrow> string \<Rightarrow> nat \<Rightarrow> oid \<Rightarrow> nat \<Rightarrow> jsString \<Rightarrow> envFile" where
  "sealedRow rowId projectId environment version uploader createdAt content =
     \<lparr>ef_id = rowId, ef_projectId = projectId, ef_environment = environment,
      ef_encryptedData = map (\<lambda>b. b + 3544) (utf8Encode content), ef_iv = exampleIv,
      ef_authTag = replicate 16 216, ef_version = version, ef_uploadedBy = uploader,
      ef_createdAt = createdAt\<rparr>"

definition shopDev1 :: envFile where
  "shopDev1 = sealedRow ''f00000000000000000000001'' shopId ''dev'' 1 aliceId 10 [65, 61, 49]"

definition shopDev2 :: envFile where
  "shopDev2 = sealedRow ''f00000000000000000000002'' shopId ''dev'' 2 carolId 20 [65, 61, 50]"

definition blogProd1 :: envFile where
  "blogProd1 = sealedRow ''f00000000000000000000003'' blogId ''prod'' 1 bobId 30 [66, 61, 49]"

definition exampleWorld :: world where
  "exampleWorld =
     \<lparr>users = [\<lparr>u_id = aliceId, u_name = ''Alice'', u_email = ''alice@example.org''\<rparr>,
               \<lparr>u_id = bobId, u_name = ''Bob'', u_email = ''bob@example.org''\<rparr>,
               \<lparr>u_id = carolId, u_name = ''Carol'', u_email = ''carol@example.org''\<rparr>],
      projects = [shop, blog],
      envFiles = [shopDev1, shopDev2, blogProd1],
      envLogs = [],
      secrets = [\<lparr>s_id = ''500000000000000000000001'', s_projectId = shopId,
                  s_name = ''API_KEY'', s_encryptedData = [1], s_iv = exampleIv,
                  s_authTag = replicate 16 216, s_createdBy = aliceId\<rparr>],
      settings = [\<lparr>us_userId = aliceId, us_flushDuration = None,
                   us_panicButton = \<lparr>flushEnvs = True, revokeCollaborators = False,
                                     downloadEnvs = True, askConfirmation = True\<rparr>\<rparr>],
      down = {},
      MASTER_ENCRYPTION_KEY = Some ''kkkkkkkkkkkkkkkkkkkkkkkkkkkkkkkk'',
      runtime = shiftCipher,
      entropy = (\<lambda>i. i),
      drawn = 0,
      objectIds = (\<lambda>n. ''e0000000000000000000000'' @
                          [if n = 0 then CHR ''0'' else if n = 1 then CHR ''1'' else CHR ''2'']),
      handedOut = 0,
      now = 100,
      trace = []\<rparr>"

definition exampleRequest :: request where
  "exampleRequest =
     \<lparr>req_user = None, params_projectId = [], params_id = [], params_envFileId = [],
      params_userId = [], body_environment = [], body_content = None, req_file = None\<rparr>"

section \<open>Properties\<close>

subsection \<open>Running the model\<close>

lemma storeCall_up:
  "m \<notin> down w \<Longrightarrow> storeCall m n f w = f (w\<lparr>trace := trace w @ [Called m n]\<rparr>)"
  by (simp add: storeCall_def Let_def)

lemma storeCall_down:
  "m \<in> down w \<Longrightarrow>
     storeCall m n f w = (Inl (StoreFailure m), w\<lparr>trace := trace w @ [Called m n]\<rparr>)"
  by (simp add: storeCall_def Let_def)

lemma getMasterKey_frame [simp]:
  "getMasterKey (w\<lparr>trace := t\<rparr>) = getMasterKey w"
  "getMasterKey (w\<lparr>drawn := d\<rparr>) = getMasterKey w"
  "getMasterKey (w\<lparr>envFiles := fs\<rparr>) = getMasterKey w"
  "getMasterKey (w\<lparr>envLogs := ls\<rparr>) = getMasterKey w"
  "getMasterKey (w\<lparr>handedOut := h\<rparr>) = getMasterKey w"
  "getMasterKey (w\<lparr>projects := ps\<rparr>) = getMasterKey w"
  by (simp_all add: getMasterKey_def split: option.splits)

named_theorems example_simps "facts about the small deployment"

lemma exampleWorld_fields [example_simps]:
  "users exampleWorld =
     [\<lparr>u_id = aliceId, u_name = ''Alice'', u_email = ''alice@example.org''\<rparr>,
      \<lparr>u_id = bobId, u_name = ''Bob'', u_email = ''bob@example.org''\<rparr>,
      \<lparr>u_id = carolId, u_name = ''Carol'', u_email = ''carol@example.org''\<rparr>]"
  "projects exampleWorld = [shop, blog]"
  "envFiles exampleWorld = [shopDev1, shopDev2, blogProd1]"
  "envLogs exampleWorld = []"
  "settings exampleWorld =
     [\<lparr>us_userId = aliceId, us_flushDuration = None,
       us_panicButton = \<lparr>flushEnvs = True, revokeCollaborators = False,
                         downloadEnvs = True, askConfirmation = True\<rparr>\<rparr>]"
  "down exampleWorld = {}"
  "runtime exampleWorld = shiftCipher"
  "entropy exampleWorld = (\<lambda>i. i)"
  "drawn exampleWorld = 0"
  "handedOut exampleWorld = 0"
  "now exampleWorld = 100"
  "trace exampleWorld = []"
  by (simp_all add: exampleWorld_def)

lemma exampleRequest_fields [example_simps]:
  "req_user exampleRequest = None"
  "params_projectId exampleRequest = []"
  "params_id exampleRequest = []"
  "params_envFileId exampleRequest = []"
  "params_userId exampleRequest = []"
  "body_environment exampleRequest = []"
  "body_content exampleRequest = None"
  "req_file exampleRequest = None"
  by (simp_all add: exampleRequest_def)

lemma example_ids [example_simps]:
  "isValidObjectId aliceId" "isValidObjectId bobId" "isValidObjectId carolId"
  "isValidObjectId daveId" "isValidObjectId shopId" "isValidObjectId blogId"
  "shopId \<noteq> blogId" "blogId \<noteq> shopId"
  "aliceId \<noteq> bobId" "aliceId \<noteq> carolId" "aliceId \<noteq> daveId"
  "bobId \<noteq> aliceId" "bobId \<noteq> carolId" "bobId \<noteq> daveId"
  "carolId \<noteq> aliceId" "carolId \<noteq> bobId" "carolId \<noteq> daveId"
  "daveId \<noteq> aliceId" "daveId \<noteq> bobId" "daveId \<noteq> carolId"
  "shopId \<noteq> []" "blogId \<noteq> []"
  by (simp_all add: isValidObjectId_def isHexDigit_def aliceId_def bobId_def carolId_def
        daveId_def shopId_def blogId_def)

lemma example_projects [example_simps]:
  "p_id shop = shopId" "p_createdBy shop = aliceId" "p_name shop = ''shop''"
  "p_members shop = [\<lparr>m_userId = bobId, m_permission = Read\<rparr>,
                     \<lparr>m_userId = carolId, m_permission = Write\<rparr>]"
  "p_id blog = blogId" "p_createdBy blog = bobId" "p_name blog = ''blog''"
  "p_members blog = [\<lparr>m_userId = aliceId, m_permission = Write\<rparr>]"
  by (simp_all add: shop_def blog_def)

lemma getMasterKey_example [example_simps]: "getMasterKey exampleWorld = Inr exampleKey"
  by (simp add: getMasterKey_def exampleWorld_def shiftCipher_def KEY_LENGTH_def exampleKey_def)

lemma example_lengths [example_simps]: "length exampleKey = 32" "length exampleIv = 16"
  by (simp_all add: exampleKey_def exampleIv_def)

lemma shiftPad_example [example_simps]: "shiftPad exampleKey exampleIv = 3544"
  by (simp add: shiftPad_def exampleIv_def exampleKey_def)

subsection \<open>The permission matrix\<close>

lemma Project_findById_up:
  "Project \<notin> down w \<Longrightarrow>
     Project_findById projectId w =
       (Inr (find (\<lambda>p. p_id p = projectId) (projects w)),
        w\<lparr>trace := trace w @ [Called Project ''findById'']\<rparr>)"
  by (simp add: Project_findById_def storeCall_up)



text \<open>
  The middleware and \<^verbatim>\<open>getUserProjectPermission\<close> agree: the request passes exactly
  when the permission found is write, or is read and read is all that is required.
\<close>

lemma not_Write: "q \<noteq> Write \<longleftrightarrow> q = Read"
  by (cases q) auto

lemma not_Read: "q \<noteq> Read \<longleftrightarrow> q = Write"
  by (cases q) auto

lemma requireProjectAccess_getUserProjectPermission:
  assumes "req_user req = Some userId"
    and "params_projectId req = projectId"
    and "isValidObjectId projectId"
    and "Project \<notin> down w"
  shows "(\<exists>p. fst (requireProjectAccess lvl req w) = Inr p) \<longleftrightarrow>
         (\<exists>q. fst (getUserProjectPermission userId projectId w) = Inr (Some q)
              \<and> (q = Write \<or> lvl = Read))"
proof -
  have nonempty: "projectId \<noteq> []"
    using assms(3) by (auto simp: isValidObjectId_def)
  show ?thesis
    using assms nonempty
    by (cases lvl)
       (auto simp add: requireProjectAccess_def getUserProjectPermission_def andThen_def ret_def
          Project_findById_up isProjectOwner_def Let_def not_Write not_Read
          split: option.splits permission.splits)
qed

subsection \<open>Length validation in \<^verbatim>\<open>decryptEnv\<close>\<close>

text \<open>
  C4, as the code has it. With a valid master key: a nonce of exactly 16 bytes and a tag
  of exactly 16 bytes pass the validation and the result is that of the AEAD decryption;
  a nonce of any other length, or a tag of any other length, is rejected with an error
  that does not depend on the cipher, and the world is left as it was.
\<close>

theorem decryptEnv_length_validation:
  assumes "getMasterKey w = Inr key"
  shows "(length iv = 16 \<and> length authTag = 16 \<longrightarrow>
            decryptEnv ct iv authTag w =
              (case gcmDecrypt (runtime w) key iv ct authTag of
                 None \<Rightarrow> (Inl (Crypto DecryptionFailed), w)
               | Some decrypted \<Rightarrow> (Inr (utf8Decode decrypted), w)))
       \<and> (length iv \<noteq> 16 \<longrightarrow>
            decryptEnv ct iv authTag w = (Inl (Crypto (InvalidIvLength (length iv))), w))
       \<and> (length iv = 16 \<and> length authTag \<noteq> 16 \<longrightarrow>
            decryptEnv ct iv authTag w =
              (Inl (Crypto (InvalidAuthTagLength (length authTag))), w))"
  using assms
  by (simp add: decryptEnv_def IV_LENGTH_def AUTH_TAG_LENGTH_def split: option.splits)

theorem decryptEnv_length_validation_witness:
  "decryptEnv (ef_encryptedData shopDev1) exampleIv (replicate 16 216) exampleWorld =
     (Inr [65, 61, 49], exampleWorld)
   \<and> decryptEnv (ef_encryptedData shopDev1) exampleIv (replicate 15 216) exampleWorld =
     (Inl (Crypto (InvalidAuthTagLength 15)), exampleWorld)"
  using decryptEnv_length_validation
          [of exampleWorld exampleKey exampleIv "replicate 16 216" "ef_encryptedData shopDev1"]
        decryptEnv_length_validation
          [of exampleWorld exampleKey exampleIv "replicate 15 216" "ef_encryptedData shopDev1"]
  by (simp add: example_simps shiftCipher_def shopDev1_def sealedRow_def utf8OfCodePoint_def
        isHighSurrogate_def isLowSurrogate_def)

text \<open>
  The claim as written lets a nonce of 12 to 16 bytes pass. A nonce of 12 bytes with a
  tag of 16 bytes is rejected.
\<close>

theorem decryptEnv_rejects_nonce_of_12_bytes:
  "length (replicate 12 (0::nat)) = 12 \<and> length (replicate 16 (216::nat)) = 16
   \<and> decryptEnv [1, 2, 3] (replicate 12 0) (replicate 16 216) exampleWorld =
       (Inl (Crypto (InvalidIvLength 12)), exampleWorld)"
  by (simp add: decryptEnv_def example_simps IV_LENGTH_def)

subsection \<open>Removing a member\<close>

lemma replaceFirst_found: "find P xs = Some x \<Longrightarrow> replaceFirst P x xs = xs"
  by (induction xs) (auto split: if_splits)

lemma find_replaceFirst: "find P xs = Some x \<Longrightarrow> P y \<Longrightarrow> find P (replaceFirst P y xs) = Some y"
  by (induction xs) (auto split: if_splits)

lemma replaceFirst_twice: "P y \<Longrightarrow> P z \<Longrightarrow> replaceFirst P z (replaceFirst P y xs) = replaceFirst P z xs"
  by (induction xs) auto

lemma find_Some_holds: "find P xs = Some x \<Longrightarrow> P x"
  by (induction xs) (auto split: if_splits)

lemma requireProjectOwnership_owner:
  assumes "req_user req = Some ownerId"
    and "(if params_projectId req \<noteq> [] then params_projectId req else params_id req) = projectId"
    and "isValidObjectId projectId"
    and "Project \<notin> down w"
    and "find (\<lambda>p. p_id p = projectId) (projects w) = Some p"
    and "p_createdBy p = ownerId"
  shows "requireProjectOwnership req w =
           (Inr p, w\<lparr>trace := trace w @ [Called Project ''findById'']\<rparr>)"
proof -
  have "projectId \<noteq> []" using assms(3) by (auto simp: isValidObjectId_def)
  then show ?thesis
    using assms
    by (simp add: requireProjectOwnership_def Project_findById_up isProjectOwner_def Let_def)
qed

text \<open>What the route does for the owner of an existing project.\<close>

lemma deleteMember_owner:
  assumes "req_user req = Some ownerId"
    and "params_projectId req = []"
    and "params_id req = projectId"
    and "isValidObjectId projectId"
    and "isValidObjectId (params_userId req)"
    and "Project \<notin> down w"
    and "User \<notin> down w"
    and "find (\<lambda>p. p_id p = projectId) (projects w) = Some p"
    and "p_createdBy p = ownerId"
  shows "fst (deleteMember req w) =
           Reply 200 (ProjectJson
             (Some (p\<lparr>p_members := filter (\<lambda>m. m_userId m \<noteq> params_userId req) (p_members p)\<rparr>)))"
    and "projects (snd (deleteMember req w)) =
           replaceFirst (\<lambda>q. p_id q = projectId)
             (p\<lparr>p_members := filter (\<lambda>m. m_userId m \<noteq> params_userId req) (p_members p)\<rparr>)
             (projects w)"
    and "down (snd (deleteMember req w)) = down w"
proof -
  have pid: "p_id p = projectId" using assms(8) by (auto dest: find_Some_holds)
  have guard: "requireProjectOwnership req w =
           (Inr p, w\<lparr>trace := trace w @ [Called Project ''findById'']\<rparr>)"
    using assms by (intro requireProjectOwnership_owner) auto
  have found: "find (\<lambda>q. p_id q = projectId)
                 (replaceFirst (\<lambda>q. p_id q = projectId)
                    (p\<lparr>p_members := filter (\<lambda>m. m_userId m \<noteq> params_userId req) (p_members p)\<rparr>)
                    (projects w)) =
               Some (p\<lparr>p_members := filter (\<lambda>m. m_userId m \<noteq> params_userId req) (p_members p)\<rparr>)"
    using assms(8) pid by (intro find_replaceFirst) auto
  show "fst (deleteMember req w) =
           Reply 200 (ProjectJson
             (Some (p\<lparr>p_members := filter (\<lambda>m. m_userId m \<noteq> params_userId req) (p_members p)\<rparr>)))"
    using assms pid found
    by (simp add: deleteMember_def route_def guard deleteMember_handler_def catchAll_def
          andThen_def ret_def Project_save_def Project_findById_populate_def
          Project_findById_def storeCall_up Let_def)
  show "projects (snd (deleteMember req w)) =
           replaceFirst (\<lambda>q. p_id q = projectId)
             (p\<lparr>p_members := filter (\<lambda>m. m_userId m \<noteq> params_userId req) (p_members p)\<rparr>)
             (projects w)"
    using assms pid found
    by (simp add: deleteMember_def route_def guard deleteMember_handler_def catchAll_def
          andThen_def ret_def Project_save_def Project_findById_populate_def
          Project_findById_def storeCall_up Let_def)
  show "down (snd (deleteMember req w)) = down w"
    using assms pid found
    by (simp add: deleteMember_def route_def guard deleteMember_handler_def catchAll_def
          andThen_def ret_def Project_save_def Project_findById_populate_def
          Project_findById_def storeCall_up Let_def)
qed

text \<open>
  C9. When the owner removes a user who is not in \<open>members\<close>, the route answers 200
  with the project as it was and the stored projects are unchanged; and for any user, a
  second call answers as the first did and leaves the projects as the first call left
  them.
\<close>

theorem deleteMember_absent_idempotent:
  assumes "req_user req = Some ownerId"
    and "params_projectId req = []"
    and "params_id req = projectId"
    and "isValidObjectId projectId"
    and "isValidObjectId (params_userId req)"
    and "Project \<notin> down w"
    and "User \<notin> down w"
    and "find (\<lambda>p. p_id p = projectId) (projects w) = Some p"
    and "p_createdBy p = ownerId"
  shows "(params_userId req \<notin> set (map m_userId (p_members p)) \<longrightarrow>
            fst (deleteMember req w) = Reply 200 (ProjectJson (Some p))
          \<and> projects (snd (deleteMember req w)) = projects w)
       \<and> (\<exists>p1. fst (deleteMember req w) = Reply 200 (ProjectJson (Some p1))
              \<and> fst (deleteMember req (snd (deleteMember req w))) =
                  Reply 200 (ProjectJson (Some p1)))
       \<and> projects (snd (deleteMember req (snd (deleteMember req w)))) =
           projects (snd (deleteMember req w))"
proof -
  define p1 where
    "p1 = p\<lparr>p_members := filter (\<lambda>m. m_userId m \<noteq> params_userId req) (p_members p)\<rparr>"
  define w1 where "w1 = snd (deleteMember req w)"
  note once = deleteMember_owner [OF assms, folded p1_def w1_def]
  have pid: "p_id p = projectId" using assms(8) by (auto dest: find_Some_holds)
  have absent: "p1 = p" if "params_userId req \<notin> set (map m_userId (p_members p))"
  proof -
    have "filter (\<lambda>m. m_userId m \<noteq> params_userId req) (p_members p) = p_members p"
      using that by (intro filter_True) force
    then show ?thesis by (simp add: p1_def)
  qed
  have found1: "find (\<lambda>q. p_id q = projectId) (projects w1) = Some p1"
    unfolding once(2) using assms(8) pid by (intro find_replaceFirst) (auto simp: p1_def)
  have again: "p1\<lparr>p_members := filter (\<lambda>m. m_userId m \<noteq> params_userId req) (p_members p1)\<rparr> = p1"
    by (simp add: p1_def)
  have down1: "Project \<notin> down w1" "User \<notin> down w1"
    using assms(6,7) once(3) by auto
  have owner1: "p_createdBy p1 = ownerId" using assms(9) by (simp add: p1_def)
  note twice = deleteMember_owner [OF assms(1-5) down1 found1 owner1, unfolded again]
  have same: "projects (snd (deleteMember req w1)) = projects w1"
    unfolding twice(2) using found1 by (rule replaceFirst_found)
  show ?thesis
    using once(1,2) twice(1) same absent assms(8)
    by (auto simp: w1_def replaceFirst_found)
qed

theorem deleteMember_absent_idempotent_witness:
  "fst (deleteMember
          (exampleRequest\<lparr>req_user := Some aliceId, params_id := shopId, params_userId := daveId\<rparr>)
          exampleWorld) = Reply 200 (ProjectJson (Some shop))
   \<and> projects (snd (deleteMember
          (exampleRequest\<lparr>req_user := Some aliceId, params_id := shopId, params_userId := daveId\<rparr>)
          exampleWorld)) = [shop, blog]"
  using deleteMember_absent_idempotent
          [of "exampleRequest\<lparr>req_user := Some aliceId, params_id := shopId,
                 params_userId := daveId\<rparr>" aliceId shopId exampleWorld shop]
  by (simp add: example_simps)

subsection \<open>Frames\<close>

lemma traceOnly_iff:
  "traceOnly w w1 \<longleftrightarrow>
     users w1 = users w \<and> projects w1 = projects w \<and> envFiles w1 = envFiles w
     \<and> envLogs w1 = envLogs w \<and> secrets w1 = secrets w \<and> settings w1 = settings w
     \<and> down w1 = down w \<and> MASTER_ENCRYPTION_KEY w1 = MASTER_ENCRYPTION_KEY w
     \<and> runtime w1 = runtime w \<and> entropy w1 = entropy w \<and> drawn w1 = drawn w
     \<and> objectIds w1 = objectIds w \<and> handedOut w1 = handedOut w \<and> now w1 = now w
     \<and> world.more w1 = world.more w"
  unfolding traceOnly_def by (cases w, cases w1) auto

lemma auditOnly_iff:
  "auditOnly w w1 \<longleftrightarrow>
     users w1 = users w \<and> projects w1 = projects w \<and> envFiles w1 = envFiles w
     \<and> secrets w1 = secrets w \<and> settings w1 = settings w
     \<and> down w1 = down w \<and> MASTER_ENCRYPTION_KEY w1 = MASTER_ENCRYPTION_KEY w
     \<and> runtime w1 = runtime w \<and> entropy w1 = entropy w \<and> drawn w1 = drawn w
     \<and> objectIds w1 = objectIds w \<and> handedOut w1 = handedOut w \<and> now w1 = now w
     \<and> world.more w1 = world.more w"
  unfolding auditOnly_def by (cases w, cases w1) auto

lemma frameRel_traceOnly: "frameRel traceOnly"
  by (simp add: frameRel_def traceOnly_iff)

lemma frameRel_auditOnly: "frameRel auditOnly"
  by (simp add: frameRel_def auditOnly_iff)

lemma traceOnly_auditOnly: "traceOnly w w1 \<Longrightarrow> auditOnly w w1"
  by (simp add: traceOnly_iff auditOnly_iff)

lemma keepsD: "keeps R m \<Longrightarrow> R w (snd (m w))"
  by (simp add: keeps_def)

named_theorems keeps_intros "how the combinators keep a frame"

lemma keeps_ret [keeps_intros]: "frameRel R \<Longrightarrow> keeps R (ret x)"
  by (simp add: keeps_def frameRel_def ret_def)

lemma keeps_throw [keeps_intros]: "frameRel R \<Longrightarrow> keeps R (throw e)"
  by (simp add: keeps_def frameRel_def throw_def)

lemma keeps_read [keeps_intros]: "frameRel R \<Longrightarrow> keeps R (\<lambda>w. (g w, w))"
  by (simp add: keeps_def frameRel_def)

lemma keeps_andThen [keeps_intros]:
  "frameRel R \<Longrightarrow> keeps R m \<Longrightarrow> (\<And>x. keeps R (f x)) \<Longrightarrow> keeps R (andThen m f)"
  unfolding keeps_def frameRel_def andThen_def
  by (auto split: prod.splits sum.splits) (metis snd_conv)+

lemma keeps_storeCall [keeps_intros]:
  "frameRel R \<Longrightarrow> keeps R f \<Longrightarrow> keeps R (storeCall m n f)"
  unfolding keeps_def frameRel_def storeCall_def Let_def
  by (auto split: prod.splits sum.splits) blast

lemma keeps_if [keeps_intros]:
  "keeps R a \<Longrightarrow> keeps R b \<Longrightarrow> keeps R (if c then a else b)"
  by simp

lemma keeps_case_option [keeps_intros]:
  "keeps R a \<Longrightarrow> (\<And>x. keeps R (b x)) \<Longrightarrow> keeps R (case v of None \<Rightarrow> a | Some x \<Rightarrow> b x)"
  by (cases v) simp_all

lemma keeps_case_sum [keeps_intros]:
  "(\<And>x. keeps R (a x)) \<Longrightarrow> (\<And>x. keeps R (b x)) \<Longrightarrow>
     keeps R (case v of Inl x \<Rightarrow> a x | Inr x \<Rightarrow> b x)"
  by (cases v) simp_all

lemma keeps_case_prod [keeps_intros]:
  "(\<And>x y. keeps R (a x y)) \<Longrightarrow> keeps R (case v of (x, y) \<Rightarrow> a x y)"
  by (cases v) simp_all

lemma keeps_catchAll [keeps_intros]:
  "frameRel R \<Longrightarrow> keeps R h \<Longrightarrow> keeps R (catchAll a b h)"
  unfolding keeps_def frameRel_def catchAll_def consoleError_def
  by (auto split: prod.splits sum.splits) (metis snd_conv)+

lemma keeps_route [keeps_intros]:
  "frameRel R \<Longrightarrow> keeps R (guard req) \<Longrightarrow> (\<And>p. keeps R (handler req p)) \<Longrightarrow>
     keeps R (route guard handler req)"
  unfolding keeps_def frameRel_def route_def
  by (auto split: prod.splits sum.splits) (metis snd_conv)+

lemma Project_findById_down:
  "Project \<in> down w \<Longrightarrow>
     Project_findById projectId w =
       (Inl (StoreFailure Project), w\<lparr>trace := trace w @ [Called Project ''findById'']\<rparr>)"
  by (simp add: Project_findById_def storeCall_down)

lemma decryptEnv_pure: "snd (decryptEnv ct iv tag w) = w"
  by (simp add: decryptEnv_def split: sum.splits option.splits)

lemma decryptEnv_trace:
  "decryptEnv ct iv tag (w\<lparr>trace := t\<rparr>) = (fst (decryptEnv ct iv tag w), w\<lparr>trace := t\<rparr>)"
  by (simp add: decryptEnv_def split: sum.splits option.splits)


lemma traceOnly_simps:
  "traceOnly w w" "traceOnly w (w\<lparr>trace := t\<rparr>)"
  by (simp_all add: traceOnly_iff)

lemma keeps_requireProjectAccess: "keeps traceOnly (requireProjectAccess lvl req)"
  unfolding keeps_def
proof
  fix w
  show "traceOnly w (snd (requireProjectAccess lvl req w))"
  proof (cases "Project \<in> down w")
    case True
    then show ?thesis
      by (simp add: requireProjectAccess_def Project_findById_down consoleError_def Let_def traceOnly_simps
            split: option.splits)
  next
    case False
    then show ?thesis
      by (simp add: requireProjectAccess_def Project_findById_up Let_def traceOnly_simps
            split: option.splits)
  qed
qed

lemma keeps_requireProjectOwnership: "keeps traceOnly (requireProjectOwnership req)"
  unfolding keeps_def
proof
  fix w
  show "traceOnly w (snd (requireProjectOwnership req w))"
  proof (cases "Project \<in> down w")
    case True
    then show ?thesis
      by (simp add: requireProjectOwnership_def Project_findById_down consoleError_def Let_def traceOnly_simps
            split: option.splits)
  next
    case False
    then show ?thesis
      by (simp add: requireProjectOwnership_def Project_findById_up Let_def traceOnly_simps
            split: option.splits)
  qed
qed

lemma keeps_decryptEnv [keeps_intros]: "frameRel R \<Longrightarrow> keeps R (decryptEnv ct iv tag)"
  by (simp add: keeps_def frameRel_def decryptEnv_pure)

lemma decryptEnv_traceOnly:
  "traceOnly w w1 \<Longrightarrow> fst (decryptEnv ct iv tag w1) = fst (decryptEnv ct iv tag w)"
  unfolding traceOnly_def by (metis decryptEnv_trace fst_conv)

lemma keeps_getEnvContent: "keeps traceOnly (getEnvContent req)"
  unfolding getEnvContent_def getEnvContent_handler_def EnvFile_findOne_def Let_def
  by (intro keeps_intros frameRel_traceOnly keeps_requireProjectAccess)

subsection \<open>Reading content for editing\<close>

lemma EnvFile_findOne_up:
  "EnvFile \<notin> down w \<Longrightarrow>
     EnvFile_findOne envFileId projectId w =
       (Inr (find (\<lambda>f. ef_id f = envFileId \<and> ef_projectId f = projectId) (envFiles w)),
        w\<lparr>trace := trace w @ [Called EnvFile ''findOne'']\<rparr>)"
  by (simp add: EnvFile_findOne_def storeCall_up)

text \<open>
  C10. A caller whom \<^verbatim>\<open>requireProjectAccess('read')\<close> lets through receives, with
  status 200, the plaintext that \<^verbatim>\<open>decryptEnv\<close> yields for the requested row; and
  whatever the request, the route leaves the audit log, like every other collection, as
  it was: only the trace of calls grows.
\<close>

theorem getEnvContent_plaintext_unlogged:
  "(fst (requireProjectAccess Read req w) = Inr p
      \<and> isValidObjectId (params_projectId req) \<and> isValidObjectId (params_envFileId req)
      \<and> EnvFile \<notin> down w
      \<and> find (\<lambda>f. ef_id f = params_envFileId req \<and> ef_projectId f = params_projectId req)
            (envFiles w) = Some f
      \<and> fst (decryptEnv (ef_encryptedData f) (ef_iv f) (ef_authTag f) w) = Inr plaintext
    \<longrightarrow> fst (getEnvContent req w) = Reply 200 (ContentJson plaintext))
   \<and> envLogs (snd (getEnvContent req w)) = envLogs w
   \<and> traceOnly w (snd (getEnvContent req w))"
proof -
  have frame: "traceOnly w (snd (getEnvContent req w))"
    using keeps_getEnvContent by (rule keepsD)
  have reply: "fst (getEnvContent req w) = Reply 200 (ContentJson plaintext)"
    if guard: "fst (requireProjectAccess Read req w) = Inr p"
      and ids: "isValidObjectId (params_projectId req)" "isValidObjectId (params_envFileId req)"
      and up: "EnvFile \<notin> down w"
      and row: "find (\<lambda>f. ef_id f = params_envFileId req \<and> ef_projectId f = params_projectId req)
                  (envFiles w) = Some f"
      and dec: "fst (decryptEnv (ef_encryptedData f) (ef_iv f) (ef_authTag f) w) = Inr plaintext"
  proof -
    define w1 where "w1 = snd (requireProjectAccess Read req w)"
    have same: "traceOnly w w1"
      unfolding w1_def using keeps_requireProjectAccess by (rule keepsD)
    have g: "requireProjectAccess Read req w = (Inr p, w1)"
      using guard by (simp add: w1_def prod_eq_iff)
    have up1: "EnvFile \<notin> down w1" and rows1: "envFiles w1 = envFiles w"
      using same up by (simp_all add: traceOnly_iff)
    define w2 where "w2 = w1\<lparr>trace := trace w1 @ [Called EnvFile ''findOne'']\<rparr>"
    have "traceOnly w w2"
      using same by (simp add: w2_def traceOnly_iff)
    then have "fst (decryptEnv (ef_encryptedData f) (ef_iv f) (ef_authTag f) w2) = Inr plaintext"
      using dec by (simp add: decryptEnv_traceOnly)
    then have d2: "decryptEnv (ef_encryptedData f) (ef_iv f) (ef_authTag f) w2 = (Inr plaintext, w2)"
      by (simp add: prod_eq_iff decryptEnv_pure)
    show ?thesis
      using ids row
      by (simp add: getEnvContent_def route_def g getEnvContent_handler_def catchAll_def
            andThen_def ret_def EnvFile_findOne_up [OF up1] rows1 d2 [unfolded w2_def] Let_def)
  qed
  show ?thesis
    using frame reply by (auto simp: traceOnly_iff)
qed

lemma example_rows [example_simps]:
  "ef_id shopDev1 = ''f00000000000000000000001''" "ef_projectId shopDev1 = shopId"
  "ef_environment shopDev1 = ''dev''" "ef_version shopDev1 = 1"
  "ef_uploadedBy shopDev1 = aliceId" "ef_createdAt shopDev1 = 10"
  "ef_id shopDev2 = ''f00000000000000000000002''" "ef_projectId shopDev2 = shopId"
  "ef_environment shopDev2 = ''dev''" "ef_version shopDev2 = 2"
  "ef_uploadedBy shopDev2 = carolId" "ef_createdAt shopDev2 = 20"
  "ef_id blogProd1 = ''f00000000000000000000003''" "ef_projectId blogProd1 = blogId"
  "ef_environment blogProd1 = ''prod''" "ef_version blogProd1 = 1"
  "ef_uploadedBy blogProd1 = bobId" "ef_createdAt blogProd1 = 30"
  "isValidObjectId ''f00000000000000000000001''" "isValidObjectId ''f00000000000000000000002''"
  "isValidObjectId ''f00000000000000000000003''"
  by (simp_all add: shopDev1_def shopDev2_def blogProd1_def sealedRow_def isValidObjectId_def
        isHexDigit_def)

lemma example_decrypt [example_simps]:
  "decryptEnv (ef_encryptedData shopDev1) (ef_iv shopDev1) (ef_authTag shopDev1) exampleWorld =
     (Inr [65, 61, 49], exampleWorld)"
  "decryptEnv (ef_encryptedData shopDev2) (ef_iv shopDev2) (ef_authTag shopDev2) exampleWorld =
     (Inr [65, 61, 50], exampleWorld)"
  "decryptEnv (ef_encryptedData blogProd1) (ef_iv blogProd1) (ef_authTag blogProd1) exampleWorld =
     (Inr [66, 61, 49], exampleWorld)"
  by (simp_all add: decryptEnv_def example_simps shopDev1_def shopDev2_def blogProd1_def
        sealedRow_def IV_LENGTH_def AUTH_TAG_LENGTH_def shiftCipher_def utf8OfCodePoint_def
        isHighSurrogate_def isLowSurrogate_def)

theorem getEnvContent_plaintext_unlogged_witness:
  "fst (getEnvContent
          (exampleRequest\<lparr>req_user := Some bobId, params_projectId := shopId,
             params_envFileId := ''f00000000000000000000001''\<rparr>) exampleWorld)
     = Reply 200 (ContentJson [65, 61, 49])
   \<and> envLogs (snd (getEnvContent
          (exampleRequest\<lparr>req_user := Some bobId, params_projectId := shopId,
             params_envFileId := ''f00000000000000000000001''\<rparr>) exampleWorld)) = []"
  using getEnvContent_plaintext_unlogged
          [of "exampleRequest\<lparr>req_user := Some bobId, params_projectId := shopId,
                 params_envFileId := ''f00000000000000000000001''\<rparr>"
              exampleWorld shop shopDev1 "[65, 61, 49]"]
  by (simp add: example_simps requireProjectAccess_def Project_findById_up isProjectOwner_def)

subsection \<open>The audit logger\<close>

lemma User_findById_up:
  "User \<notin> down w \<Longrightarrow>
     User_findById userId w =
       (Inr (find (\<lambda>u. u_id u = userId) (users w)),
        w\<lparr>trace := trace w @ [Called User ''findById'']\<rparr>)"
  by (simp add: User_findById_def storeCall_up)

lemma User_findById_down:
  "User \<in> down w \<Longrightarrow>
     User_findById userId w =
       (Inl (StoreFailure User), w\<lparr>trace := trace w @ [Called User ''findById'']\<rparr>)"
  by (simp add: User_findById_def storeCall_down)

text \<open>
  Either the entry is appended, or nothing but the trace changes; in both cases the
  call returns normally.
\<close>

lemma logEnvAction_cases:
  obtains
    (logged) u where
      "User \<notin> down w" "EnvLog \<notin> down w"
      "find (\<lambda>u. u_id u = userId) (users w) = Some u"
      "validEnvLog (envLogEntry projectId userId action environment metadata envFileId version u)"
      "logEnvAction projectId userId action environment metadata envFileId version w =
         (Inr (), w\<lparr>envLogs := envLogs w @
                       [(envLogEntry projectId userId action environment metadata envFileId
                           version u)\<lparr>l_createdAt := now w\<rparr>],
                    trace := trace w @ [LogEnvActionCalled action, Called User ''findById'',
                                        Called EnvLog ''create'']\<rparr>)"
  | (dropped) evs where
      "User \<in> down w \<or> EnvLog \<in> down w \<or> find (\<lambda>u. u_id u = userId) (users w) = None
       \<or> (\<exists>u. find (\<lambda>u. u_id u = userId) (users w) = Some u
             \<and> \<not> validEnvLog (envLogEntry projectId userId action environment metadata
                                envFileId version u))"
      "set evs \<subseteq> auditEvents"
      "logEnvAction projectId userId action environment metadata envFileId version w =
         (Inr (), w\<lparr>trace := trace w @ LogEnvActionCalled action # evs\<rparr>)"
      "ConsoleError ''User not found for logging:'' \<in> set evs
       \<or> ConsoleError ''Failed to log env action:'' \<in> set evs"
proof (cases "User \<in> down w")
  case True
  have "logEnvAction projectId userId action environment metadata envFileId version w =
         (Inr (), w\<lparr>trace := trace w @ LogEnvActionCalled action #
                      [Called User ''findById'', ConsoleError ''Failed to log env action:'']\<rparr>)"
    using True
    by (simp add: logEnvAction_def logEnvAction_try_def andThen_def User_findById_down
          consoleError_def)
  then show ?thesis using True by (intro dropped) (auto simp: auditEvents_def)
next
  case userUp: False
  show ?thesis
  proof (cases "find (\<lambda>u. u_id u = userId) (users w)")
    case None
    have "logEnvAction projectId userId action environment metadata envFileId version w =
           (Inr (), w\<lparr>trace := trace w @ LogEnvActionCalled action #
                        [Called User ''findById'',
                         ConsoleError ''User not found for logging:'']\<rparr>)"
      using userUp None
      by (simp add: logEnvAction_def logEnvAction_try_def andThen_def User_findById_up
            consoleError_def)
    then show ?thesis using None by (intro dropped) (auto simp: auditEvents_def)
  next
    case (Some u)
    show ?thesis
    proof (cases "EnvLog \<in> down w
                  \<or> \<not> validEnvLog (envLogEntry projectId userId action environment metadata
                                      envFileId version u)")
      case True
      have "logEnvAction projectId userId action environment metadata envFileId version w =
             (Inr (), w\<lparr>trace := trace w @ LogEnvActionCalled action #
                          [Called User ''findById'', Called EnvLog ''create'',
                           ConsoleError ''Failed to log env action:'']\<rparr>)"
        using userUp Some True
        by (auto simp add: logEnvAction_def logEnvAction_try_def andThen_def User_findById_up
              EnvLog_create_def storeCall_def consoleError_def Let_def)
      then show ?thesis using Some True by (intro dropped) (auto simp: auditEvents_def)
    next
      case False
      have "logEnvAction projectId userId action environment metadata envFileId version w =
         (Inr (), w\<lparr>envLogs := envLogs w @
                       [(envLogEntry projectId userId action environment metadata envFileId
                           version u)\<lparr>l_createdAt := now w\<rparr>],
                    trace := trace w @ [LogEnvActionCalled action, Called User ''findById'',
                                        Called EnvLog ''create'']\<rparr>)"
        using userUp Some False
        by (simp add: logEnvAction_def logEnvAction_try_def andThen_def User_findById_up
              EnvLog_create_def storeCall_def consoleError_def Let_def)
      then show ?thesis using userUp Some False by (intro logged) auto
    qed
  qed
qed

lemma logEnvAction_returns:
  "fst (logEnvAction projectId userId action environment metadata envFileId version w) = Inr ()"
  by (cases rule: logEnvAction_cases
        [of w userId projectId action environment metadata envFileId version]) simp_all

lemma keeps_logEnvAction:
  "keeps auditOnly (logEnvAction projectId userId action environment metadata envFileId version)"
  unfolding keeps_def
proof
  fix w
  show "auditOnly w
          (snd (logEnvAction projectId userId action environment metadata envFileId version w))"
    by (cases rule: logEnvAction_cases
          [of w userId projectId action environment metadata envFileId version])
       (simp_all add: auditOnly_iff)
qed

subsection \<open>Deleting an environment file\<close>







lemma requireProjectOwnership_cases:
  obtains evs where
    "snd (requireProjectOwnership req w) = w\<lparr>trace := trace w @ evs\<rparr>"
    "set evs \<subseteq> {Called Project ''findById'', ConsoleError ''Project ownership check error:''}"
proof -
  define P where
    "P w1 \<longleftrightarrow> (\<exists>evs. w1 = w\<lparr>trace := trace w @ evs\<rparr>
                  \<and> set evs \<subseteq> {Called Project ''findById'',
                                 ConsoleError ''Project ownership check error:''})" for w1
  have P0: "P w"
    unfolding P_def by (rule exI [of _ "[]"]) simp
  have P1: "P (w\<lparr>trace := trace w @ [Called Project ''findById'']\<rparr>)"
    unfolding P_def by (rule exI [of _ "[Called Project ''findById'']"]) simp
  have P2: "P (w\<lparr>trace := trace w @ [Called Project ''findById'',
                                       ConsoleError ''Project ownership check error:'']\<rparr>)"
    unfolding P_def
    by (rule exI [of _ "[Called Project ''findById'',
                         ConsoleError ''Project ownership check error:'']"]) simp
  have "P (snd (requireProjectOwnership req w))"
  proof (cases "Project \<in> down w")
    case True
    then show ?thesis
      using P0 P2
      by (simp add: requireProjectOwnership_def Project_findById_down consoleError_def Let_def
            split: option.splits)
  next
    case False
    then show ?thesis
      using P0 P1
      by (simp add: requireProjectOwnership_def Project_findById_up Let_def
            split: option.splits)
  qed
  then show ?thesis
    unfolding P_def using that by blast
qed

lemma requireProjectOwnership_passes:
  assumes "fst (requireProjectOwnership req w) = Inr p"
  shows "req_user req = Some (p_createdBy p)" and "Project \<notin> down w"
proof -
  have "req_user req = Some (p_createdBy p) \<and> Project \<notin> down w"
  proof (cases "Project \<in> down w")
    case True
    then show ?thesis
      using assms
      by (simp add: requireProjectOwnership_def Project_findById_down Let_def
            split: option.splits if_splits)
  next
    case False
    then show ?thesis
      using assms
      by (simp add: requireProjectOwnership_def Project_findById_up Let_def isProjectOwner_def
            split: option.splits if_splits)
  qed
  then show "req_user req = Some (p_createdBy p)" and "Project \<notin> down w" by simp_all
qed



subsection \<open>Editing in place\<close>

lemma encryptEnv_ok:
  assumes "getMasterKey w = Inr key"
  shows "encryptEnv content w =
           (Inr (fst (gcmEncrypt (runtime w) key (fst (randomBytes 16 w)) (utf8Encode content)),
                 fst (randomBytes 16 w),
                 snd (gcmEncrypt (runtime w) key (fst (randomBytes 16 w)) (utf8Encode content))),
            w\<lparr>drawn := drawn w + 16\<rparr>)"
  using assms
  by (simp add: encryptEnv_def IV_LENGTH_def randomBytes_def split: prod.splits)

lemma randomBytes_trace: "fst (randomBytes n (w\<lparr>trace := t\<rparr>)) = fst (randomBytes n w)"
  by (simp add: randomBytes_def)

lemma length_randomBytes: "length (fst (randomBytes n w)) = n"
  by (simp add: randomBytes_def)

lemma keeps_populate:
  "frameRel R \<Longrightarrow> keeps R (EnvFile_findById_populate envFileId)"
  unfolding EnvFile_findById_populate_def populateUploadedBy_def
  by (intro keeps_intros)

lemma EnvFile_save_up:
  "EnvFile \<notin> down w \<Longrightarrow> validEnvFile doc \<Longrightarrow>
     EnvFile_save doc w =
       (Inr (), w\<lparr>envFiles := replaceFirst (\<lambda>f. ef_id f = ef_id doc) doc (envFiles w),
                  trace := trace w @ [Called EnvFile ''save'']\<rparr>)"
  by (simp add: EnvFile_save_def storeCall_up)

lemma validateFileContent_ok:
  "body_content req = Some content \<Longrightarrow> content = [] \<or> length content \<le> 50 * 1024 \<Longrightarrow>
     validateFileContent req = []"
  by (auto simp add: validateFileContent_def)

text \<open>
  The handler up to and including \<^verbatim>\<open>envFile.save()\<close>, and what follows it: the audit
  call and the reading back of the row.
\<close>

lemma putEnv_handler_run:
  assumes user: "req_user req = Some userId"
    and fid: "isValidObjectId (params_envFileId req)"
    and content: "body_content req = Some content" "content = [] \<or> length content \<le> 50 * 1024"
    and up: "EnvFile \<notin> down w"
    and row: "find (\<lambda>f. ef_id f = params_envFileId req \<and> ef_projectId f = params_projectId req)
                (envFiles w) = Some f"
    and key: "getMasterKey w = Inr key"
    and iv: "iv = fst (randomBytes 16 w)"
    and sealed: "gcmEncrypt (runtime w) key iv (utf8Encode content) = (ct, tag)"
    and valid: "validEnvFile (f\<lparr>ef_encryptedData := ct, ef_iv := iv, ef_authTag := tag\<rparr>)"
  shows "putEnv_handler req p w =
           catchAll ''Edit env file error:'' ''Failed to update environment file''
             (andThen (logEnvAction (params_projectId req) userId Edit (ef_environment f)
                        (Some \<lparr>oldVersion = Some (ef_version f),
                               newVersion = Some (ef_version f), fileName = None\<rparr>)
                        (Some (params_envFileId req)) (Some (ef_version f)))
                (\<lambda>_. andThen (EnvFile_findById_populate (ef_id f))
                        (\<lambda>populatedEnvFile.
                           ret (Reply 200 (EnvFileJson populatedEnvFile
                                  ''Environment file updated successfully'')))))
             (w\<lparr>drawn := drawn w + 16,
                envFiles :=
                   replaceFirst (\<lambda>g. ef_id g = params_envFileId req)
                     (f\<lparr>ef_encryptedData := ct, ef_iv := iv, ef_authTag := tag\<rparr>) (envFiles w),
                trace := trace w @ [Called EnvFile ''findOne'', Called EnvFile ''save'']\<rparr>)"
proof -
  have fid_f: "ef_id f = params_envFileId req"
    using row by (auto dest: find_Some_holds)
  define w1 where "w1 = w\<lparr>trace := trace w @ [Called EnvFile ''findOne'']\<rparr>"
  have k1: "getMasterKey w1 = Inr key" using key by (simp add: w1_def)
  have iv1: "fst (randomBytes 16 w1) = iv" by (simp add: w1_def iv randomBytes_trace)
  have enc: "encryptEnv content w1 = (Inr (ct, iv, tag), w1\<lparr>drawn := drawn w1 + 16\<rparr>)"
    using encryptEnv_ok [OF k1, of content] sealed by (simp add: iv1) (simp add: w1_def)
  have up2: "EnvFile \<notin> down (w1\<lparr>drawn := drawn w1 + 16\<rparr>)"
    using up by (simp add: w1_def)
  note save = EnvFile_save_up [OF up2 valid]
  have errors: "validateEnvFileId req @ validateFileContent req = []"
    using fid content by (simp add: validateEnvFileId_def validateFileContent_ok)
  show ?thesis
    using user content(1) up row
    by (simp add: putEnv_handler_def errors catchAll_def andThen_def [of "EnvFile_findOne _ _"]
          andThen_def [of "encryptEnv _"] andThen_def [of "EnvFile_save _"]
          EnvFile_findOne_up Let_def
          enc [unfolded w1_def, simplified] save [unfolded w1_def, simplified] fid_f)
qed

lemma logEnvAction_eq:
  "logEnvAction projectId userId action environment metadata envFileId version w =
     (Inr (), snd (logEnvAction projectId userId action environment metadata envFileId version w))"
  by (simp add: prod_eq_iff logEnvAction_returns)

text \<open>What runs after the audit call sees a world that differs in log and trace only.\<close>

lemma after_logEnvAction:
  assumes "\<And>x. keeps traceOnly (k x)"
  shows "traceOnly
           (snd (logEnvAction projectId userId action environment metadata envFileId version w))
           (snd (catchAll l m
                   (andThen
                      (logEnvAction projectId userId action environment metadata envFileId
                         version) k) w))"
proof -
  define w4 where
    "w4 = snd (logEnvAction projectId userId action environment metadata envFileId version w)"
  have step: "logEnvAction projectId userId action environment metadata envFileId version w =
                (Inr (), w4)"
    unfolding w4_def by (rule logEnvAction_eq)
  have "traceOnly w4 (snd (k () w4))"
    using assms by (rule keepsD)
  then show ?thesis
    unfolding w4_def [symmetric]
    by (cases "k () w4")
       (auto simp add: catchAll_def andThen_def step consoleError_def traceOnly_iff
          split: sum.splits)
qed

lemma find_weaken:
  "find P xs = Some x \<Longrightarrow> (\<And>y. P y \<Longrightarrow> Q y) \<Longrightarrow> \<exists>z. find Q xs = Some z"
  by (induction xs) (auto split: if_splits)

lemma EnvFile_findById_populate_up:
  assumes "EnvFile \<notin> down w" and "User \<notin> down w"
    and "find (\<lambda>f. ef_id f = envFileId) (envFiles w) = Some f"
  shows "fst (EnvFile_findById_populate envFileId w) =
           Inr (Some \<lparr>v_id = ef_id f, v_projectId = ef_projectId f,
                      v_environment = ef_environment f, v_version = ef_version f,
                      v_uploadedBy = find (\<lambda>u. u_id u = ef_uploadedBy f) (users w),
                      v_createdAt = ef_createdAt f\<rparr>)"
  using assms
  by (simp add: EnvFile_findById_populate_def populateUploadedBy_def andThen_def ret_def
        storeCall_up)

text \<open>
  C5. When the owner edits an existing row (well-formed row id, content of at most
  50 KiB, the \<^verbatim>\<open>EnvFile\<close> store answering, a valid master key, and a new document that
  passes the schema), the row is replaced in place by itself with three fields changed:
  the nonce is the next 16 bytes of the random source, the ciphertext and tag are what
  the cipher yields for the new content under that nonce. Version, project, environment
  and uploader are those of the old row, and projects, users and secrets are untouched.
  If moreover the acting user's record can be read and the \<^verbatim>\<open>EnvLog\<close> store answers, one
  entry is appended to the audit log, with action edit and metadata whose \<open>oldVersion\<close>
  and \<open>newVersion\<close> are both the version of the row.
\<close>

theorem putEnv_edit_in_place:
  assumes guard: "fst (requireProjectOwnership req w) = Inr p"
    and fid: "isValidObjectId (params_envFileId req)"
    and content: "body_content req = Some content" "content = [] \<or> length content \<le> 50 * 1024"
    and up: "EnvFile \<notin> down w"
    and row: "find (\<lambda>f. ef_id f = params_envFileId req \<and> ef_projectId f = params_projectId req)
                (envFiles w) = Some f"
    and key: "getMasterKey w = Inr key"
    and iv: "iv = fst (randomBytes 16 w)"
    and sealed: "gcmEncrypt (runtime w) key iv (utf8Encode content) = (ct, tag)"
    and valid: "validEnvFile (f\<lparr>ef_encryptedData := ct, ef_iv := iv, ef_authTag := tag\<rparr>)"
  shows "envFiles (snd (putEnv req w)) =
           replaceFirst (\<lambda>g. ef_id g = params_envFileId req)
             (f\<lparr>ef_encryptedData := ct, ef_iv := iv, ef_authTag := tag\<rparr>) (envFiles w)
       \<and> drawn (snd (putEnv req w)) = drawn w + 16
       \<and> projects (snd (putEnv req w)) = projects w
       \<and> users (snd (putEnv req w)) = users w
       \<and> secrets (snd (putEnv req w)) = secrets w
       \<and> (User \<notin> down w \<longrightarrow>
            fst (putEnv req w) =
              Reply 200 (EnvFileJson
                (Some \<lparr>v_id = ef_id f, v_projectId = ef_projectId f,
                       v_environment = ef_environment f, v_version = ef_version f,
                       v_uploadedBy = find (\<lambda>u. u_id u = ef_uploadedBy f) (users w),
                       v_createdAt = ef_createdAt f\<rparr>)
                ''Environment file updated successfully''))
       \<and> (\<forall>u. User \<notin> down w \<and> EnvLog \<notin> down w
              \<and> find (\<lambda>u. u_id u = p_createdBy p) (users w) = Some u
              \<and> u_email u \<noteq> [] \<and> u_name u \<noteq> []
            \<longrightarrow> envLogs (snd (putEnv req w)) =
                  envLogs w @
                    [\<lparr>l_projectId = params_projectId req,
                      l_envFileId = Some (params_envFileId req),
                      l_environment = ef_environment f, l_version = Some (ef_version f),
                      l_action = Edit, l_performedBy = p_createdBy p,
                      l_performedByEmail = u_email u, l_performedByName = u_name u,
                      l_metadata = \<lparr>oldVersion = Some (ef_version f),
                                     newVersion = Some (ef_version f), fileName = None\<rparr>,
                      l_createdAt = now w\<rparr>])"
proof -
  obtain gevs where
    g: "snd (requireProjectOwnership req w) = w\<lparr>trace := trace w @ gevs\<rparr>"
    by (rule requireProjectOwnership_cases)
  define w0 where "w0 = w\<lparr>trace := trace w @ gevs\<rparr>"
  define userId where "userId = p_createdBy p"
  have user: "req_user req = Some userId"
    using requireProjectOwnership_passes(1) [OF guard] by (simp add: userId_def)
  have "requireProjectOwnership req w = (Inr p, w0)"
    using guard g by (simp add: prod_eq_iff w0_def)
  then have route: "putEnv req w = putEnv_handler req p w0"
    by (simp add: putEnv_def route_def)
  define f1 where "f1 = f\<lparr>ef_encryptedData := ct, ef_iv := iv, ef_authTag := tag\<rparr>"
  define rows where
    "rows = replaceFirst (\<lambda>g. ef_id g = params_envFileId req) f1 (envFiles w0)"
  have rows_w: "rows = replaceFirst (\<lambda>g. ef_id g = params_envFileId req) f1 (envFiles w)"
    by (simp add: rows_def w0_def)
  define w3 where
    "w3 = w0\<lparr>drawn := drawn w0 + 16, envFiles := rows,
              trace := trace w0 @ [Called EnvFile ''findOne'', Called EnvFile ''save'']\<rparr>"
  define md where
    "md = \<lparr>oldVersion = Some (ef_version f), newVersion = Some (ef_version f),
           fileName = (None :: string option)\<rparr>"
  define tail where
    "tail = (\<lambda>_ :: unit. andThen (EnvFile_findById_populate (ef_id f))
                (\<lambda>populatedEnvFile.
                   ret (Reply 200 (EnvFileJson populatedEnvFile
                          ''Environment file updated successfully''))))"
  have run: "putEnv_handler req p w0 =
               catchAll ''Edit env file error:'' ''Failed to update environment file''
                 (andThen (logEnvAction (params_projectId req) userId Edit (ef_environment f)
                            (Some md) (Some (params_envFileId req)) (Some (ef_version f)))
                    tail) w3"
    unfolding w3_def rows_def f1_def md_def tail_def
    by (rule putEnv_handler_run [where key = key])
       (use user fid content up row key iv sealed valid in
         \<open>simp_all add: w0_def randomBytes_trace\<close>)
  define w4 where
    "w4 = snd (logEnvAction (params_projectId req) userId Edit (ef_environment f)
                 (Some md) (Some (params_envFileId req)) (Some (ef_version f)) w3)"
  have quiet: "keeps traceOnly (tail x)" for x
    unfolding tail_def by (intro keeps_intros keeps_populate frameRel_traceOnly)
  have a34: "auditOnly w3 w4"
    unfolding w4_def using keeps_logEnvAction by (rule keepsD)
  have t4: "traceOnly w4 (snd (putEnv req w))"
    unfolding route run w4_def using quiet by (rule after_logEnvAction)
  have fields3: "envFiles w3 = rows" "drawn w3 = drawn w + 16" "projects w3 = projects w"
    "users w3 = users w" "secrets w3 = secrets w" "down w3 = down w" "envLogs w3 = envLogs w"
    "now w3 = now w"
    by (simp_all add: w3_def w0_def)
  have state: "envFiles (snd (putEnv req w)) = rows"
    "drawn (snd (putEnv req w)) = drawn w + 16"
    "projects (snd (putEnv req w)) = projects w"
    "users (snd (putEnv req w)) = users w"
    "secrets (snd (putEnv req w)) = secrets w"
    using a34 t4 fields3 by (simp_all add: auditOnly_iff traceOnly_iff)
  have reply: "fst (putEnv req w) =
              Reply 200 (EnvFileJson
                (Some \<lparr>v_id = ef_id f, v_projectId = ef_projectId f,
                       v_environment = ef_environment f, v_version = ef_version f,
                       v_uploadedBy = find (\<lambda>u. u_id u = ef_uploadedBy f) (users w),
                       v_createdAt = ef_createdAt f\<rparr>)
                ''Environment file updated successfully'')"
    if userUp: "User \<notin> down w"
  proof -
    have fid_f: "ef_id f = params_envFileId req"
      using row by (auto dest: find_Some_holds)
    obtain z where "find (\<lambda>g. ef_id g = params_envFileId req) (envFiles w) = Some z"
      using find_weaken [OF row, of "\<lambda>g. ef_id g = params_envFileId req"] by auto
    then have "find (\<lambda>g. ef_id g = params_envFileId req) rows = Some f1"
      unfolding rows_w by (rule find_replaceFirst) (simp add: f1_def fid_f)
    then have found4: "find (\<lambda>g. ef_id g = ef_id f) (envFiles w4) = Some f1"
      using a34 fields3 by (simp add: auditOnly_iff fid_f)
    have up4: "EnvFile \<notin> down w4" "User \<notin> down w4" "users w4 = users w"
      using a34 fields3 up userUp by (simp_all add: auditOnly_iff)
    have "fst (EnvFile_findById_populate (ef_id f) w4) =
            Inr (Some \<lparr>v_id = ef_id f1, v_projectId = ef_projectId f1,
                       v_environment = ef_environment f1, v_version = ef_version f1,
                       v_uploadedBy = find (\<lambda>u. u_id u = ef_uploadedBy f1) (users w4),
                       v_createdAt = ef_createdAt f1\<rparr>)"
      using up4(1,2) found4 by (rule EnvFile_findById_populate_up)
    moreover have "logEnvAction (params_projectId req) userId Edit (ef_environment f)
                     (Some md) (Some (params_envFileId req)) (Some (ef_version f)) w3 =
                   (Inr (), w4)"
      unfolding w4_def by (rule logEnvAction_eq)
    ultimately show ?thesis
      unfolding route run
      by (cases "EnvFile_findById_populate (ef_id f) w4")
         (simp add: catchAll_def andThen_def tail_def ret_def f1_def up4(3))
  qed
  have logged: "envLogs (snd (putEnv req w)) =
                  envLogs w @
                    [\<lparr>l_projectId = params_projectId req,
                      l_envFileId = Some (params_envFileId req),
                      l_environment = ef_environment f, l_version = Some (ef_version f),
                      l_action = Edit, l_performedBy = p_createdBy p,
                      l_performedByEmail = u_email u, l_performedByName = u_name u,
                      l_metadata = \<lparr>oldVersion = Some (ef_version f),
                                     newVersion = Some (ef_version f), fileName = None\<rparr>,
                      l_createdAt = now w\<rparr>]"
    if audit: "User \<notin> down w" "EnvLog \<notin> down w"
      "find (\<lambda>u. u_id u = p_createdBy p) (users w) = Some u" "u_email u \<noteq> []" "u_name u \<noteq> []"
    for u
  proof -
    have env: "ef_environment f \<in> set environments"
      using valid by (simp add: validEnvFile_def)
    have "envLogs w4 = envLogs w @
            [(envLogEntry (params_projectId req) userId Edit (ef_environment f) (Some md)
                (Some (params_envFileId req)) (Some (ef_version f)) u)\<lparr>l_createdAt := now w\<rparr>]"
    proof (cases rule: logEnvAction_cases
             [of w3 userId "params_projectId req" Edit "ef_environment f" "Some md"
                 "Some (params_envFileId req)" "Some (ef_version f)"])
      case (logged u1)
      then show ?thesis
        using audit(3) fields3 by (simp add: w4_def userId_def)
    next
      case (dropped evs)
      then show ?thesis
        using audit env fields3
        by (auto simp add: userId_def validEnvLog_def envLogEntry_def)
    qed
    then show ?thesis
      using t4 by (simp add: traceOnly_iff envLogEntry_def md_def userId_def)
  qed
  show ?thesis
    using state reply logged by (simp add: rows_w f1_def)
qed

lemma upt_16: "[0..<16] = [0, 1, 2, 3, 4, 5, 6, 7, 8, 9, 10, 11, 12, 13, 14, 15 :: nat]"
  by code_simp

lemma example_randomBytes [example_simps]:
  "fst (randomBytes 16 exampleWorld) = exampleIv" "exampleIv \<noteq> []"
  by (simp_all add: randomBytes_def example_simps exampleIv_def upt_16)

theorem putEnv_edit_in_place_witness:
  "envFiles (snd (putEnv
      (exampleRequest\<lparr>req_user := Some aliceId, params_projectId := shopId,
         params_envFileId := ''f00000000000000000000001'', body_content := Some [65, 61, 57]\<rparr>)
      exampleWorld))
     = [shopDev1\<lparr>ef_encryptedData := [3609, 3605, 3601], ef_iv := exampleIv,
                 ef_authTag := replicate 16 216\<rparr>, shopDev2, blogProd1]
   \<and> map l_metadata (envLogs (snd (putEnv
      (exampleRequest\<lparr>req_user := Some aliceId, params_projectId := shopId,
         params_envFileId := ''f00000000000000000000001'', body_content := Some [65, 61, 57]\<rparr>)
      exampleWorld)))
     = [\<lparr>oldVersion = Some 1, newVersion = Some 1, fileName = None\<rparr>]"
  using putEnv_edit_in_place
          [of "exampleRequest\<lparr>req_user := Some aliceId, params_projectId := shopId,
                 params_envFileId := ''f00000000000000000000001'',
                 body_content := Some [65, 61, 57]\<rparr>"
              exampleWorld shop "[65, 61, 57]" shopDev1 exampleKey exampleIv
              "[3609, 3605, 3601]" "replicate 16 216"]
  by (simp add: example_simps requireProjectOwnership_def Project_findById_up isProjectOwner_def
        shiftCipher_def utf8OfCodePoint_def isHighSurrogate_def isLowSurrogate_def
        validEnvFile_def environments_def)

subsection \<open>Uploading\<close>





















lemma example_objectIds [example_simps]:
  "objectIds exampleWorld =
     (\<lambda>n. ''e0000000000000000000000'' @
            [if n = 0 then CHR ''0'' else if n = 1 then CHR ''1'' else CHR ''2''])"
  by (simp add: exampleWorld_def)



subsection \<open>Audit writes are best effort\<close>

text \<open>
  C8. Whatever the world (stores failing, the acting user without a record, a document
  the schema rejects), \<^verbatim>\<open>logEnvAction\<close> returns normally and leaves a world that differs
  from the one it found in the audit log and the trace at most; so the code that follows
  the call always runs, in that world. When the entry cannot be written the log is left
  as it was and a line is written to the console.
\<close>

theorem logEnvAction_best_effort:
  "fst (logEnvAction projectId userId action environment metadata envFileId version w) = Inr ()
   \<and> auditOnly w
        (snd (logEnvAction projectId userId action environment metadata envFileId version w))
   \<and> andThen (logEnvAction projectId userId action environment metadata envFileId version) k w
       = k () (snd (logEnvAction projectId userId action environment metadata envFileId
                      version w))
   \<and> (User \<in> down w \<or> EnvLog \<in> down w \<or> find (\<lambda>u. u_id u = userId) (users w) = None
      \<longrightarrow> envLogs (snd (logEnvAction projectId userId action environment metadata envFileId
                           version w)) = envLogs w
        \<and> (ConsoleError ''User not found for logging:''
              \<in> set (eventsSince w
                        (snd (logEnvAction projectId userId action environment metadata
                                envFileId version w)))
            \<or> ConsoleError ''Failed to log env action:''
              \<in> set (eventsSince w
                        (snd (logEnvAction projectId userId action environment metadata
                                envFileId version w)))))"
proof -
  have returns:
    "fst (logEnvAction projectId userId action environment metadata envFileId version w) = Inr ()"
    by (rule logEnvAction_returns)
  have frame:
    "auditOnly w
       (snd (logEnvAction projectId userId action environment metadata envFileId version w))"
    using keeps_logEnvAction by (rule keepsD)
  have continues:
    "andThen (logEnvAction projectId userId action environment metadata envFileId version) k w
       = k () (snd (logEnvAction projectId userId action environment metadata envFileId
                      version w))"
    by (cases "logEnvAction projectId userId action environment metadata envFileId version w")
       (use returns in \<open>simp add: andThen_def\<close>)
  have failing:
    "envLogs (snd (logEnvAction projectId userId action environment metadata envFileId
                           version w)) = envLogs w
        \<and> (ConsoleError ''User not found for logging:''
              \<in> set (eventsSince w
                        (snd (logEnvAction projectId userId action environment metadata
                                envFileId version w)))
            \<or> ConsoleError ''Failed to log env action:''
              \<in> set (eventsSince w
                        (snd (logEnvAction projectId userId action environment metadata
                                envFileId version w))))"
    if "User \<in> down w \<or> EnvLog \<in> down w \<or> find (\<lambda>u. u_id u = userId) (users w) = None"
  proof (cases rule: logEnvAction_cases
           [of w userId projectId action environment metadata envFileId version])
    case (logged u)
    then show ?thesis using that by simp
  next
    case (dropped evs)
    then show ?thesis by (auto simp add: eventsSince_def)
  qed
  show ?thesis
    using returns frame continues failing by blast
qed

theorem logEnvAction_best_effort_witness:
  "fst (logEnvAction shopId aliceId Delete ''dev'' None None None
          (exampleWorld\<lparr>down := {EnvLog}\<rparr>)) = Inr ()
   \<and> envLogs (snd (logEnvAction shopId aliceId Delete ''dev'' None None None
                     (exampleWorld\<lparr>down := {EnvLog}\<rparr>))) = []"
  using logEnvAction_best_effort
          [of shopId aliceId Delete "''dev''" None None None "exampleWorld\<lparr>down := {EnvLog}\<rparr>"
              ret]
  by (simp add: example_simps)

subsection \<open>The panic cascade\<close>

lemma decryptLatest_run:
  "\<exists>entries n. \<forall>t.
     decryptLatest p xs acc (w\<lparr>trace := t\<rparr>) =
       (Inr entries, w\<lparr>trace := t @ replicate n (ConsoleError ''Failed to decrypt env'')\<rparr>)"
proof (induction xs arbitrary: acc)
  case Nil
  have "\<forall>t. decryptLatest p [] acc (w\<lparr>trace := t\<rparr>) =
          (Inr acc, w\<lparr>trace := t @ replicate 0 (ConsoleError ''Failed to decrypt env'')\<rparr>)"
    by simp
  then show ?case by blast
next
  case (Cons x xs)
  obtain env envFile where x: "x = (env, envFile)"
    by (cases x)
  show ?case
  proof (cases "fst (decryptEnv (ef_encryptedData envFile) (ef_iv envFile) (ef_authTag envFile) w)")
    case (Inr content)
    obtain entries n where rest:
      "\<And>t. decryptLatest p xs
              (acc @ [\<lparr>b_projectName = p_name p, b_environment = env,
                        b_version = ef_version envFile, b_content = content\<rparr>])
              (w\<lparr>trace := t\<rparr>) =
            (Inr entries, w\<lparr>trace := t @ replicate n (ConsoleError ''Failed to decrypt env'')\<rparr>)"
      using Cons.IH by blast
    have "\<forall>t. decryptLatest p (x # xs) acc (w\<lparr>trace := t\<rparr>) =
            (Inr entries, w\<lparr>trace := t @ replicate n (ConsoleError ''Failed to decrypt env'')\<rparr>)"
      by (simp add: x decryptEnv_trace Inr rest)
    then show ?thesis by blast
  next
    case (Inl e)
    obtain entries n where rest:
      "\<And>t. decryptLatest p xs acc (w\<lparr>trace := t\<rparr>) =
            (Inr entries, w\<lparr>trace := t @ replicate n (ConsoleError ''Failed to decrypt env'')\<rparr>)"
      using Cons.IH by blast
    have "\<forall>t. decryptLatest p (x # xs) acc (w\<lparr>trace := t\<rparr>) =
            (Inr entries,
             w\<lparr>trace := t @ replicate (Suc n) (ConsoleError ''Failed to decrypt env'')\<rparr>)"
      by (simp add: x decryptEnv_trace Inl rest consoleError_def replicate_app_Cons_same)
    then show ?thesis by blast
  qed
qed

lemma collectBackups_run:
  assumes "EnvFile \<notin> down w"
  shows "\<exists>entries evs.
           set evs \<subseteq> {Called EnvFile ''find'', ConsoleError ''Failed to decrypt env''}
           \<and> (\<forall>t. collectBackups ps acc (w\<lparr>trace := t\<rparr>) = (Inr entries, w\<lparr>trace := t @ evs\<rparr>))"
proof (induction ps arbitrary: acc)
  case Nil
  have "\<forall>t. collectBackups [] acc (w\<lparr>trace := t\<rparr>) = (Inr acc, w\<lparr>trace := t @ []\<rparr>)"
    by (simp add: ret_def)
  then show ?case by (metis empty_set empty_subsetI)
next
  case (Cons p ps)
  define rows where
    "rows = rev (sort_key ef_createdAt (filter (\<lambda>f. ef_projectId f = p_id p) (envFiles w)))"
  have found: "EnvFile_find_byProject (p_id p) (w\<lparr>trace := t\<rparr>) =
                 (Inr rows, w\<lparr>trace := t @ [Called EnvFile ''find'']\<rparr>)" for t
    using assms by (simp add: EnvFile_find_byProject_def storeCall_up rows_def)
  obtain acc1 n where latest:
    "\<And>t. decryptLatest p (latestByEnv rows) acc (w\<lparr>trace := t\<rparr>) =
          (Inr acc1, w\<lparr>trace := t @ replicate n (ConsoleError ''Failed to decrypt env'')\<rparr>)"
    using decryptLatest_run by blast
  obtain entries evs where rest:
    "set evs \<subseteq> {Called EnvFile ''find'', ConsoleError ''Failed to decrypt env''}"
    "\<And>t. collectBackups ps acc1 (w\<lparr>trace := t\<rparr>) = (Inr entries, w\<lparr>trace := t @ evs\<rparr>)"
    using Cons.IH by blast
  have "\<forall>t. collectBackups (p # ps) acc (w\<lparr>trace := t\<rparr>) =
          (Inr entries,
           w\<lparr>trace := t @ (Called EnvFile ''find''
                              # replicate n (ConsoleError ''Failed to decrypt env'') @ evs)\<rparr>)"
    by (simp add: andThen_def found latest rest(2))
  moreover have "set (Called EnvFile ''find''
                        # replicate n (ConsoleError ''Failed to decrypt env'') @ evs)
                 \<subseteq> {Called EnvFile ''find'', ConsoleError ''Failed to decrypt env''}"
    using rest(1) by auto
  ultimately show ?case by blast
qed

lemma downloadStep_run:
  assumes "EnvFile \<notin> down w"
  obtains entries evs where
    "fst (collectBackups owned [] w) = Inr entries"
    "set evs \<subseteq> {Called EnvFile ''find'', ConsoleError ''Failed to decrypt env''}"
    "\<And>t. downloadStep owned results (w\<lparr>trace := t\<rparr>) =
          (results\<lparr>r_downloadEnvs := True, r_downloadContent := Some entries\<rparr>,
           w\<lparr>trace := t @ evs\<rparr>)"
proof -
  obtain entries evs where run:
    "set evs \<subseteq> {Called EnvFile ''find'', ConsoleError ''Failed to decrypt env''}"
    "\<And>t. collectBackups owned [] (w\<lparr>trace := t\<rparr>) = (Inr entries, w\<lparr>trace := t @ evs\<rparr>)"
    using collectBackups_run [OF assms] by blast
  have "fst (collectBackups owned [] w) = Inr entries"
    using run(2) [of "trace w"] by simp
  moreover have "downloadStep owned results (w\<lparr>trace := t\<rparr>) =
          (results\<lparr>r_downloadEnvs := True, r_downloadContent := Some entries\<rparr>,
           w\<lparr>trace := t @ evs\<rparr>)" for t
    by (simp add: downloadStep_def run(2))
  ultimately show thesis
    using run(1) that by blast
qed

lemma forEach_deleteMany:
  "EnvFile \<notin> down w \<Longrightarrow>
     forEach ps (\<lambda>project. EnvFile_deleteMany (p_id project)) w =
       (Inr (), w\<lparr>envFiles := filter (\<lambda>f. ef_projectId f \<notin> p_id ` set ps) (envFiles w),
                  trace := trace w @ replicate (length ps) (Called EnvFile ''deleteMany'')\<rparr>)"
proof (induction ps arbitrary: w)
  case Nil
  then show ?case by (simp add: ret_def)
next
  case (Cons p ps)
  define w1 where
    "w1 = w\<lparr>trace := trace w @ [Called EnvFile ''deleteMany''],
            envFiles := filter (\<lambda>f. ef_projectId f \<noteq> p_id p) (envFiles w)\<rparr>"
  have first: "EnvFile_deleteMany (p_id p) w = (Inr (), w1)"
    using Cons.prems by (simp add: EnvFile_deleteMany_def storeCall_up w1_def)
  have "EnvFile \<notin> down w1"
    using Cons.prems by (simp add: w1_def)
  then have rest:
    "forEach ps (\<lambda>project. EnvFile_deleteMany (p_id project)) w1 =
       (Inr (), w1\<lparr>envFiles := filter (\<lambda>f. ef_projectId f \<notin> p_id ` set ps) (envFiles w1),
                   trace := trace w1 @ replicate (length ps) (Called EnvFile ''deleteMany'')\<rparr>)"
    by (rule Cons.IH)
  show ?case
    by (simp add: andThen_def first rest)
       (simp add: w1_def replicate_app_Cons_same conj_commute)
qed

lemma flushStep_run:
  assumes "EnvFile \<notin> down w"
  shows "flushStep owned results w =
           (results\<lparr>r_flushEnvs := True,
                    r_flushedCount :=
                      Some (length (filter (\<lambda>f. ef_projectId f \<in> p_id ` set owned)
                                      (envFiles w)))\<rparr>,
            w\<lparr>envFiles := filter (\<lambda>f. ef_projectId f \<notin> p_id ` set owned) (envFiles w),
              trace := trace w @ Called EnvFile ''countDocuments''
                         # replicate (length owned) (Called EnvFile ''deleteMany'')\<rparr>)"
  using assms
  by (simp add: flushStep_def andThen_def EnvFile_countDocuments_def storeCall_up
        forEach_deleteMany ret_def)

lemma forEach_Project_save:
  "Project \<notin> down w \<Longrightarrow>
     \<exists>saved. forEach ps (\<lambda>project. Project_save (project\<lparr>p_members := []\<rparr>)) w =
       (Inr (), w\<lparr>projects := saved,
                  trace := trace w @ replicate (length ps) (Called Project ''save'')\<rparr>)"
proof (induction ps arbitrary: w)
  case Nil
  have "forEach [] (\<lambda>project. Project_save (project\<lparr>p_members := []\<rparr>)) w =
          (Inr (), w\<lparr>projects := projects w,
                     trace := trace w @ replicate (length ([] :: project list))
                                          (Called Project ''save'')\<rparr>)"
    by (simp add: ret_def)
  then show ?case by blast
next
  case (Cons p ps)
  define w1 where
    "w1 = w\<lparr>trace := trace w @ [Called Project ''save''],
            projects := replaceFirst (\<lambda>q. p_id q = p_id p) (p\<lparr>p_members := []\<rparr>) (projects w)\<rparr>"
  have first: "Project_save (p\<lparr>p_members := []\<rparr>) w = (Inr (), w1)"
    using Cons.prems by (simp add: Project_save_def storeCall_up w1_def)
  have "Project \<notin> down w1"
    using Cons.prems by (simp add: w1_def)
  then obtain saved where rest:
    "forEach ps (\<lambda>project. Project_save (project\<lparr>p_members := []\<rparr>)) w1 =
       (Inr (), w1\<lparr>projects := saved,
                   trace := trace w1 @ replicate (length ps) (Called Project ''save'')\<rparr>)"
    using Cons.IH by blast
  have "forEach (p # ps) (\<lambda>project. Project_save (project\<lparr>p_members := []\<rparr>)) w =
          (Inr (), w\<lparr>projects := saved,
                     trace := trace w @ replicate (length (p # ps)) (Called Project ''save'')\<rparr>)"
    by (simp add: andThen_def first rest) (simp add: w1_def replicate_app_Cons_same)
  then show ?case by blast
qed

lemma revokeStep_run:
  assumes "Project \<notin> down w"
  obtains saved where
    "revokeStep owned results w =
       (results\<lparr>r_revokeCollaborators := True\<rparr>,
        w\<lparr>projects := saved,
          trace := trace w @ replicate (length owned) (Called Project ''save'')\<rparr>)"
proof -
  obtain saved where
    "forEach owned (\<lambda>project. Project_save (project\<lparr>p_members := []\<rparr>)) w =
       (Inr (), w\<lparr>projects := saved,
                  trace := trace w @ replicate (length owned) (Called Project ''save'')\<rparr>)"
    using forEach_Project_save [OF assms] by blast
  then have "revokeStep owned results w =
       (results\<lparr>r_revokeCollaborators := True\<rparr>,
        w\<lparr>projects := saved,
          trace := trace w @ replicate (length owned) (Called Project ''save'')\<rparr>)"
    by (simp add: revokeStep_def)
  then show thesis by (rule that)
qed

lemma postPanic_run:
  assumes "req_user req = Some userId"
    and "find (\<lambda>s. us_userId s = userId) (settings w) = Some s"
    and "flushEnvs (us_panicButton s) \<or> revokeCollaborators (us_panicButton s)
         \<or> downloadEnvs (us_panicButton s)"
    and "UserSettings \<notin> down w" and "Project \<notin> down w"
    and "(if downloadEnvs (us_panicButton s)
          then downloadStep (filter (\<lambda>p. p_createdBy p = userId) (projects w))
                 \<lparr>r_downloadEnvs = False, r_flushEnvs = False, r_revokeCollaborators = False,
                  r_downloadContent = None, r_downloadError = False, r_flushedCount = None,
                  r_flushError = False, r_revokeError = False\<rparr>
                 (w\<lparr>trace := trace w @ [Called UserSettings ''findOne'', Called Project ''find'']\<rparr>)
          else (\<lparr>r_downloadEnvs = False, r_flushEnvs = False, r_revokeCollaborators = False,
                  r_downloadContent = None, r_downloadError = False, r_flushedCount = None,
                  r_flushError = False, r_revokeError = False\<rparr>,
                w\<lparr>trace := trace w @ [Called UserSettings ''findOne'', Called Project ''find'']\<rparr>))
         = (results1, w1)"
    and "(if flushEnvs (us_panicButton s)
          then flushStep (filter (\<lambda>p. p_createdBy p = userId) (projects w)) results1 w1
          else (results1, w1)) = (results2, w2)"
    and "(if revokeCollaborators (us_panicButton s)
          then revokeStep (filter (\<lambda>p. p_createdBy p = userId) (projects w)) results2 w2
          else (results2, w2)) = (results3, w3)"
  shows "postPanic req w = (Reply 200 (PanicJson results3), w3)"
proof -
  have some: "(\<not> flushEnvs (us_panicButton s) \<and> \<not> revokeCollaborators (us_panicButton s)
               \<and> \<not> downloadEnvs (us_panicButton s)) = False"
    using assms(3) by blast
  have "postPanic req w =
          catchAll ''Panic button error:'' ''Failed to execute panic actions''
            (andThen (UserSettings_findOne userId)
              (\<lambda>found. case found of
                 None \<Rightarrow> ret (Reply 400 (Error ''Panic button not configured''))
               | Some s \<Rightarrow>
                   let pb = us_panicButton s
                   in if \<not> flushEnvs pb \<and> \<not> revokeCollaborators pb \<and> \<not> downloadEnvs pb
                      then ret (Reply 400 (Error ''No panic actions configured''))
                      else
                        andThen (Project_find_createdBy userId)
                          (\<lambda>owned w.
                             let results = \<lparr>r_downloadEnvs = False, r_flushEnvs = False,
                                            r_revokeCollaborators = False,
                                            r_downloadContent = None, r_downloadError = False,
                                            r_flushedCount = None, r_flushError = False,
                                            r_revokeError = False\<rparr>;
                                 (results1, w1) =
                                   (if downloadEnvs pb then downloadStep owned results w
                                    else (results, w));
                                 (results2, w2) =
                                   (if flushEnvs pb then flushStep owned results1 w1
                                    else (results1, w1));
                                 (results3, w3) =
                                   (if revokeCollaborators pb then revokeStep owned results2 w2
                                    else (results2, w2))
                             in (Inr (Reply 200 (PanicJson results3)), w3)))) w"
    by (simp add: postPanic_def assms(1))
  also have "\<dots> = (Reply 200 (PanicJson results3), w3)"
    by (simp add: catchAll_def andThen_def UserSettings_findOne_def Project_find_createdBy_def
          storeCall_up assms(2,4,5,6,7,8) Let_def some split del: if_split)
  finally show ?thesis .
qed

text \<open>
  C7. When the invoking user has configured \<^verbatim>\<open>flushEnvs\<close> and the stores answer,
  \<^verbatim>\<open>POST /panic\<close> answers 200 with \<^verbatim>\<open>flushEnvs: true\<close> and leaves exactly the
  environment-file rows whose project was not created by that user: every row of an
  owned project is gone, whatever its version and environment, and the rows of every
  other project, those the user collaborates on included, are as they were, in their
  order. The named secrets are as they were. Every \<^verbatim>\<open>EnvFile.find\<close> of the export
  precedes every \<^verbatim>\<open>EnvFile.deleteMany\<close>, and when \<^verbatim>\<open>downloadEnvs\<close> is configured as well
  the backup in the response is the one computed from the rows as they were before the
  request.
\<close>

theorem postPanic_flush_scope:
  assumes "req_user req = Some userId"
    and "find (\<lambda>s. us_userId s = userId) (settings w) = Some s"
    and "flushEnvs (us_panicButton s)"
    and "UserSettings \<notin> down w" and "Project \<notin> down w" and "EnvFile \<notin> down w"
  shows "envFiles (snd (postPanic req w)) =
           filter (\<lambda>f. ef_projectId f
                       \<notin> set (map p_id (filter (\<lambda>p. p_createdBy p = userId) (projects w))))
             (envFiles w)
         \<and> secrets (snd (postPanic req w)) = secrets w
         \<and> (\<exists>results.
               fst (postPanic req w) = Reply 200 (PanicJson results) \<and> r_flushEnvs results
               \<and> (downloadEnvs (us_panicButton s) \<longrightarrow>
                    r_downloadEnvs results
                    \<and> fst (collectBackups (filter (\<lambda>p. p_createdBy p = userId) (projects w)) [] w)
                        = Inr (the (r_downloadContent results))
                    \<and> r_downloadContent results \<noteq> None))
         \<and> (\<exists>before after.
               eventsSince w (snd (postPanic req w)) = before @ after
               \<and> Called EnvFile ''deleteMany'' \<notin> set before
               \<and> Called EnvFile ''find'' \<notin> set after
               \<and> length (filter (\<lambda>e. e = Called EnvFile ''deleteMany'') after)
                   = length (filter (\<lambda>p. p_createdBy p = userId) (projects w)))"
proof -
  define owned where "owned = filter (\<lambda>p. p_createdBy p = userId) (projects w)"
  define results0 where
    "results0 = \<lparr>r_downloadEnvs = False, r_flushEnvs = False, r_revokeCollaborators = False,
                 r_downloadContent = None, r_downloadError = False, r_flushedCount = None,
                 r_flushError = False, r_revokeError = False\<rparr>"
  define t0 where "t0 = trace w @ [Called UserSettings ''findOne'', Called Project ''find'']"
  define pb where "pb = us_panicButton s"
  have w_self: "w\<lparr>trace := trace w\<rparr> = w"
    by simp
  \<comment> \<open>the export\<close>
  obtain results1 evs1 where step1:
    "(if downloadEnvs pb then downloadStep owned results0 (w\<lparr>trace := t0\<rparr>)
      else (results0, w\<lparr>trace := t0\<rparr>)) = (results1, w\<lparr>trace := t0 @ evs1\<rparr>)"
    "set evs1 \<subseteq> {Called EnvFile ''find'', ConsoleError ''Failed to decrypt env''}"
    "downloadEnvs pb \<longrightarrow>
       r_downloadEnvs results1
       \<and> fst (collectBackups owned [] w) = Inr (the (r_downloadContent results1))
       \<and> r_downloadContent results1 \<noteq> None"
  proof (cases "downloadEnvs pb")
    case True
    obtain entries evs where
      "fst (collectBackups owned [] w) = Inr entries"
      "set evs \<subseteq> {Called EnvFile ''find'', ConsoleError ''Failed to decrypt env''}"
      "\<And>t. downloadStep owned results0 (w\<lparr>trace := t\<rparr>) =
          (results0\<lparr>r_downloadEnvs := True, r_downloadContent := Some entries\<rparr>,
           w\<lparr>trace := t @ evs\<rparr>)"
      using downloadStep_run [OF assms(6), of owned results0] by blast
    then show ?thesis
      using True that [of "results0\<lparr>r_downloadEnvs := True, r_downloadContent := Some entries\<rparr>" evs]
      by simp
  next
    case False
    then show ?thesis
      using that [of results0 "[]"] by simp
  qed
  define w1 where "w1 = w\<lparr>trace := t0 @ evs1\<rparr>"
  \<comment> \<open>the flush\<close>
  define results2 where
    "results2 = results1\<lparr>r_flushEnvs := True,
                         r_flushedCount :=
                           Some (length (filter (\<lambda>f. ef_projectId f \<in> p_id ` set owned)
                                           (envFiles w1)))\<rparr>"
  define w2 where
    "w2 = w1\<lparr>envFiles := filter (\<lambda>f. ef_projectId f \<notin> p_id ` set owned) (envFiles w1),
             trace := trace w1 @ Called EnvFile ''countDocuments''
                        # replicate (length owned) (Called EnvFile ''deleteMany'')\<rparr>"
  have "EnvFile \<notin> down w1"
    using assms(6) by (simp add: w1_def)
  then have step2: "flushStep owned results1 w1 = (results2, w2)"
    unfolding results2_def w2_def by (rule flushStep_run)
  \<comment> \<open>the revocation\<close>
  obtain results3 w3 evs3 where step3:
    "(if revokeCollaborators pb then revokeStep owned results2 w2 else (results2, w2))
       = (results3, w3)"
    "envFiles w3 = envFiles w2" "secrets w3 = secrets w2" "trace w3 = trace w2 @ evs3"
    "set evs3 \<subseteq> {Called Project ''save''}"
    "r_flushEnvs results3 = r_flushEnvs results2"
    "r_downloadEnvs results3 = r_downloadEnvs results2"
    "r_downloadContent results3 = r_downloadContent results2"
  proof (cases "revokeCollaborators pb")
    case True
    have "Project \<notin> down w2"
      using assms(5) by (simp add: w2_def w1_def)
    then obtain saved where
      "revokeStep owned results2 w2 =
         (results2\<lparr>r_revokeCollaborators := True\<rparr>,
          w2\<lparr>projects := saved,
             trace := trace w2 @ replicate (length owned) (Called Project ''save'')\<rparr>)"
      by (rule revokeStep_run)
    then show ?thesis
      using True
        that [of "results2\<lparr>r_revokeCollaborators := True\<rparr>"
                 "w2\<lparr>projects := saved,
                     trace := trace w2 @ replicate (length owned) (Called Project ''save'')\<rparr>"
                 "replicate (length owned) (Called Project ''save'')"]
      by (simp add: set_replicate_conv_if)
  next
    case False
    then show ?thesis
      using that [of results2 w2 "[]"] by simp
  qed
  have run: "postPanic req w = (Reply 200 (PanicJson results3), w3)"
  proof (rule postPanic_run [OF assms(1,2) _ assms(4,5)])
    show "flushEnvs (us_panicButton s) \<or> revokeCollaborators (us_panicButton s)
          \<or> downloadEnvs (us_panicButton s)"
      using assms(3) by simp
    show "(if downloadEnvs (us_panicButton s)
          then downloadStep (filter (\<lambda>p. p_createdBy p = userId) (projects w))
                 \<lparr>r_downloadEnvs = False, r_flushEnvs = False, r_revokeCollaborators = False,
                  r_downloadContent = None, r_downloadError = False, r_flushedCount = None,
                  r_flushError = False, r_revokeError = False\<rparr>
                 (w\<lparr>trace := trace w @ [Called UserSettings ''findOne'', Called Project ''find'']\<rparr>)
          else (\<lparr>r_downloadEnvs = False, r_flushEnvs = False, r_revokeCollaborators = False,
                  r_downloadContent = None, r_downloadError = False, r_flushedCount = None,
                  r_flushError = False, r_revokeError = False\<rparr>,
                w\<lparr>trace := trace w @ [Called UserSettings ''findOne'', Called Project ''find'']\<rparr>))
         = (results1, w1)"
      using step1(1) unfolding owned_def results0_def t0_def pb_def w1_def .
    show "(if flushEnvs (us_panicButton s)
          then flushStep (filter (\<lambda>p. p_createdBy p = userId) (projects w)) results1 w1
          else (results1, w1)) = (results2, w2)"
      using step2 assms(3) unfolding owned_def by simp
    show "(if revokeCollaborators (us_panicButton s)
          then revokeStep (filter (\<lambda>p. p_createdBy p = userId) (projects w)) results2 w2
          else (results2, w2)) = (results3, w3)"
      using step3(1) unfolding owned_def pb_def .
  qed
  have rows: "envFiles w3 =
                filter (\<lambda>f. ef_projectId f
                       \<notin> set (map p_id (filter (\<lambda>p. p_createdBy p = userId) (projects w))))
                  (envFiles w)"
    by (simp add: step3(2) w2_def w1_def owned_def)
  have named: "secrets w3 = secrets w"
    by (simp add: step3(3) w2_def w1_def)
  have answer: "r_flushEnvs results3"
    "downloadEnvs (us_panicButton s) \<longrightarrow>
       r_downloadEnvs results3
       \<and> fst (collectBackups (filter (\<lambda>p. p_createdBy p = userId) (projects w)) [] w)
           = Inr (the (r_downloadContent results3))
       \<and> r_downloadContent results3 \<noteq> None"
    using step1(3) by (simp_all add: step3(6,7,8) results2_def pb_def owned_def)
  define before where
    "before = [Called UserSettings ''findOne'', Called Project ''find''] @ evs1
                @ [Called EnvFile ''countDocuments'']"
  define after where
    "after = replicate (length owned) (Called EnvFile ''deleteMany'') @ evs3"
  have events: "eventsSince w w3 = before @ after"
    by (simp add: eventsSince_def step3(4) w2_def w1_def t0_def before_def after_def)
  have early: "Called EnvFile ''deleteMany'' \<notin> set before"
    using step1(2) by (auto simp add: before_def)
  have late: "Called EnvFile ''find'' \<notin> set after"
    using step3(5) by (auto simp add: after_def)
  have count: "length (filter (\<lambda>e. e = Called EnvFile ''deleteMany'') after)
                 = length (filter (\<lambda>p. p_createdBy p = userId) (projects w))"
  proof -
    have "filter (\<lambda>e. e = Called EnvFile ''deleteMany'') evs3 = []"
      using step3(5) by (auto simp add: filter_empty_conv)
    then show ?thesis
      by (simp add: after_def owned_def)
  qed
  show ?thesis
    unfolding run fst_conv snd_conv
    using rows named answer events early late count by blast
qed

theorem postPanic_flush_scope_witness:
  "envFiles (snd (postPanic (exampleRequest\<lparr>req_user := Some aliceId\<rparr>) exampleWorld))
     = [blogProd1]
   \<and> secrets (snd (postPanic (exampleRequest\<lparr>req_user := Some aliceId\<rparr>) exampleWorld))
     = secrets exampleWorld"
  using postPanic_flush_scope
          [of "exampleRequest\<lparr>req_user := Some aliceId\<rparr>" aliceId exampleWorld
              "\<lparr>us_userId = aliceId, us_flushDuration = None,
                us_panicButton = \<lparr>flushEnvs = True, revokeCollaborators = False,
                                  downloadEnvs = True, askConfirmation = True\<rparr>\<rparr>"]
  by (simp add: example_simps)

subsection \<open>The UTF-8 round trip\<close>

lemma decode_cp1:
  assumes "c < 0x80"
  shows "utf8Decode (utf8OfCodePoint c @ bs) = codeUnitsOf c @ utf8Decode bs"
  using assms by (simp add: utf8OfCodePoint_def codeUnitsOf_def)

lemma decode_cp2:
  assumes "0x80 \<le> c" "c < 0x800"
  shows "utf8Decode (utf8OfCodePoint c @ bs) = codeUnitsOf c @ utf8Decode bs"
proof -
  define q where "q = c div 64"
  define r where "r = c mod 64"
  have c: "c = 64 * q + r" and r: "r < 64" by (simp_all add: q_def r_def)
  have q: "2 \<le> q" "q < 32" using assms c r by linarith+
  show ?thesis using assms q r
    by (simp add: utf8OfCodePoint_def codeUnitsOf_def isContinuation_def flip: q_def r_def) (simp add: c)
qed

lemma decode_cp3:
  assumes "0x800 \<le> c" "c < 0x10000" "c < 0xD800 \<or> 0xE000 \<le> c"
  shows "utf8Decode (utf8OfCodePoint c @ bs) = codeUnitsOf c @ utf8Decode bs"
proof -
  define q2 where "q2 = c div 4096"
  define q1 where "q1 = (c div 64) mod 64"
  define q0 where "q0 = c mod 64"
  have "c div 4096 = (c div 64) div 64"
    by (simp add: div_mult2_eq [symmetric])
  then have c: "c = 4096 * q2 + 64 * q1 + q0"
    unfolding q2_def q1_def q0_def
    using div_mult_mod_eq [of c 64] div_mult_mod_eq [of "c div 64" 64] by linarith
  have small: "q1 < 64" "q0 < 64"
    by (simp_all add: q1_def q0_def)
  have q2: "q2 < 16"
    using assms(2) c by linarith
  have first: "q2 = 0 \<longrightarrow> 32 \<le> q1"
    using assms(1) c small by linarith
  have sur: "q2 = 13 \<longrightarrow> q1 < 32"
    using assms(3) c small by linarith
  have sb: "secondByteOk (224 + q2) (128 + q1)"
    using q2 first sur small by (simp add: secondByteOk_def isContinuation_def)
  have enc: "utf8OfCodePoint c = [224 + q2, 128 + q1, 128 + q0]"
    using assms(1,2) by (simp add: utf8OfCodePoint_def q2_def q1_def q0_def)
  show ?thesis
    unfolding enc using q2 small sb assms(2)
    by (simp add: codeUnitsOf_def isContinuation_def c)
qed

lemma decode_cp4:
  assumes "0x10000 \<le> c" "c < 0x110000"
  shows "utf8Decode (utf8OfCodePoint c @ bs) = codeUnitsOf c @ utf8Decode bs"
proof -
  define q3 where "q3 = c div 262144"
  define q2 where "q2 = (c div 4096) mod 64"
  define q1 where "q1 = (c div 64) mod 64"
  define q0 where "q0 = c mod 64"
  have "c div 4096 = (c div 64) div 64" "c div 262144 = (c div 4096) div 64"
    by (simp_all add: div_mult2_eq [symmetric])
  then have c: "c = 262144 * q3 + 4096 * q2 + 64 * q1 + q0"
    unfolding q3_def q2_def q1_def q0_def
    using div_mult_mod_eq [of c 64] div_mult_mod_eq [of "c div 64" 64]
      div_mult_mod_eq [of "c div 4096" 64] by linarith
  have small: "q2 < 64" "q1 < 64" "q0 < 64"
    by (simp_all add: q2_def q1_def q0_def)
  have q3: "q3 < 5"
    using assms(2) c by linarith
  have first: "q3 = 0 \<longrightarrow> 16 \<le> q2"
    using assms(1) c small by linarith
  have last: "q3 = 4 \<longrightarrow> q2 < 16"
    using assms(2) c small by linarith
  have sb: "secondByteOk (240 + q3) (128 + q2)"
    using q3 first last small by (simp add: secondByteOk_def isContinuation_def)
  have enc: "utf8OfCodePoint c = [240 + q3, 128 + q2, 128 + q1, 128 + q0]"
    using assms(1) by (simp add: utf8OfCodePoint_def q3_def q2_def q1_def q0_def)
  show ?thesis
    unfolding enc using q3 small sb
    by (simp add: isContinuation_def c mult.commute)
qed

lemma decode_codePoint:
  assumes "c < 0x110000" "c < 0xD800 \<or> 0xE000 \<le> c"
  shows "utf8Decode (utf8OfCodePoint c @ bs) = codeUnitsOf c @ utf8Decode bs"
proof -
  consider "c < 0x80" | "0x80 \<le> c" "c < 0x800" | "0x800 \<le> c" "c < 0x10000" | "0x10000 \<le> c"
    by linarith
  then show ?thesis
    using assms by cases (simp_all add: decode_cp1 decode_cp2 decode_cp3 decode_cp4)
qed

lemma codeUnitsOf_pair:
  assumes "isHighSurrogate u" "isLowSurrogate v"
  shows "codeUnitsOf (0x10000 + (u - 0xD800) * 1024 + (v - 0xDC00)) = [u, v]"
    and "0x10000 + (u - 0xD800) * 1024 + (v - 0xDC00) < 0x110000"
proof -
  define h where "h = u - 0xD800"
  define l where "l = v - 0xDC00"
  have u: "u = 0xD800 + h" and h: "h < 1024"
    using assms(1) unfolding isHighSurrogate_def h_def by linarith+
  have v: "v = 0xDC00 + l" and l: "l < 1024"
    using assms(2) unfolding isLowSurrogate_def l_def by linarith+
  show "codeUnitsOf (0x10000 + (u - 0xD800) * 1024 + (v - 0xDC00)) = [u, v]"
    using h l by (simp add: codeUnitsOf_def u v)
  show "0x10000 + (u - 0xD800) * 1024 + (v - 0xDC00) < 0x110000"
    using h l by (simp add: u v)
qed

lemma codeUnitsOf_unit: "c < 0x10000 \<Longrightarrow> codeUnitsOf c = [c]"
  by (simp add: codeUnitsOf_def)

lemma utf8Decode_utf8Encode:
  "wellFormed s \<Longrightarrow> utf8Decode (utf8Encode s) = s"
proof (induction s rule: utf8Encode.induct)
  case 1
  then show ?case by simp
next
  case (2 u)
  then have u: "u < 0x10000" "u < 0xD800 \<or> 0xE000 \<le> u" "\<not> isHighSurrogate u" "\<not> isLowSurrogate u"
    by (auto simp add: isHighSurrogate_def isLowSurrogate_def)
  have "utf8Decode (utf8OfCodePoint u @ []) = codeUnitsOf u @ utf8Decode []"
    using u(1,2) by (intro decode_codePoint) simp_all
  then show ?case
    using u by (simp add: codeUnitsOf_unit)
next
  case (3 u v us)
  show ?case
  proof (cases "isHighSurrogate u")
    case True
    then have low: "isLowSurrogate v" and rest: "wellFormed us"
      using "3.prems" by simp_all
    define c where "c = 0x10000 + (u - 0xD800) * 1024 + (v - 0xDC00)"
    have c: "codeUnitsOf c = [u, v]" "c < 0x110000" "0xE000 \<le> c"
      using codeUnitsOf_pair [OF True low] by (simp_all add: c_def)
    have "utf8Decode (utf8OfCodePoint c @ utf8Encode us) = codeUnitsOf c @ utf8Decode (utf8Encode us)"
      using c(2,3) by (intro decode_codePoint) simp_all
    moreover have "utf8Decode (utf8Encode us) = us"
      using "3.IH"(1) True low rest by simp
    moreover have "utf8Encode (u # v # us) = utf8OfCodePoint c @ utf8Encode us"
      using True low by (simp add: c_def)
    ultimately show ?thesis
      by (simp add: c(1))
  next
    case False
    then have u: "u < 0x10000" "\<not> isLowSurrogate u" and rest: "wellFormed (v # us)"
      using "3.prems" by simp_all
    have plain: "u < 0xD800 \<or> 0xE000 \<le> u"
      using False u(2) by (auto simp add: isHighSurrogate_def isLowSurrogate_def)
    have "utf8Decode (utf8OfCodePoint u @ utf8Encode (v # us))
            = codeUnitsOf u @ utf8Decode (utf8Encode (v # us))"
      using u(1) plain by (intro decode_codePoint) simp_all
    moreover have "utf8Decode (utf8Encode (v # us)) = v # us"
      using "3.IH"(2) False rest by simp
    moreover have "utf8Encode (u # v # us) = utf8OfCodePoint u @ utf8Encode (v # us)"
      using False u(2) by simp
    ultimately show ?thesis
      by (simp add: codeUnitsOf_unit u(1))
  qed
qed

subsection \<open>Decrypting what was encrypted\<close>

lemma getMasterKey_length: "getMasterKey w = Inr key \<Longrightarrow> length key = 32"
  by (simp add: getMasterKey_def KEY_LENGTH_def Let_def split: option.splits if_splits)

lemma aeadCorrect_shiftCipher: "aeadCorrect shiftCipher"
  by (simp add: aeadCorrect_def shiftCipher_def comp_def)

text \<open>
  C2, as the code has it. Under a valid master key and an AEAD that inverts itself,
  \<^verbatim>\<open>encryptEnv\<close> returns a blob for every well-formed string, whatever its size, and
  \<^verbatim>\<open>decryptEnv\<close> applied to that blob returns the string: in the world \<^verbatim>\<open>encryptEnv\<close>
  leaves, and in every world with the same key and runtime.
\<close>

theorem decryptEnv_encryptEnv:
  assumes "getMasterKey w = Inr key" and "aeadCorrect (runtime w)" and "wellFormed p"
  shows "\<exists>encryptedData iv authTag w1.
           encryptEnv p w = (Inr (encryptedData, iv, authTag), w1)
           \<and> decryptEnv encryptedData iv authTag w1 = (Inr p, w1)
           \<and> (\<forall>w2. getMasterKey w2 = Inr key \<and> runtime w2 = runtime w \<longrightarrow>
                  decryptEnv encryptedData iv authTag w2 = (Inr p, w2))"
proof -
  define iv where "iv = fst (randomBytes 16 w)"
  define encryptedData where
    "encryptedData = fst (gcmEncrypt (runtime w) key iv (utf8Encode p))"
  define authTag where "authTag = snd (gcmEncrypt (runtime w) key iv (utf8Encode p))"
  define w1 where "w1 = w\<lparr>drawn := drawn w + 16\<rparr>"
  have sealed: "encryptEnv p w = (Inr (encryptedData, iv, authTag), w1)"
    unfolding encryptedData_def authTag_def iv_def w1_def
    using assms(1) by (rule encryptEnv_ok)
  have key: "length key = 32"
    using assms(1) by (rule getMasterKey_length)
  have iv: "length iv = 16"
    by (simp add: iv_def length_randomBytes)
  have "case gcmEncrypt (runtime w) key iv (utf8Encode p) of
          (ct, tag) \<Rightarrow> length tag = 16
                        \<and> gcmDecrypt (runtime w) key iv ct tag = Some (utf8Encode p)"
    using assms(2) key iv by (simp add: aeadCorrect_def)
  then have tag: "length authTag = 16"
    and opened: "gcmDecrypt (runtime w) key iv encryptedData authTag = Some (utf8Encode p)"
    by (simp_all add: encryptedData_def authTag_def split: prod.splits)
  have restored: "decryptEnv encryptedData iv authTag w2 = (Inr p, w2)"
    if "getMasterKey w2 = Inr key" "runtime w2 = runtime w" for w2
    using that iv tag opened assms(3)
    by (simp add: decryptEnv_def IV_LENGTH_def AUTH_TAG_LENGTH_def utf8Decode_utf8Encode)
  have "getMasterKey w1 = Inr key" "runtime w1 = runtime w"
    using assms(1) by (simp_all add: w1_def)
  then have "decryptEnv encryptedData iv authTag w1 = (Inr p, w1)"
    by (rule restored)
  then show ?thesis
    using sealed restored by blast
qed

theorem decryptEnv_encryptEnv_witness:
  "\<exists>encryptedData iv authTag w1.
     encryptEnv [65, 61, 49] exampleWorld = (Inr (encryptedData, iv, authTag), w1)
     \<and> decryptEnv encryptedData iv authTag w1 = (Inr [65, 61, 49], w1)"
  using decryptEnv_encryptEnv [of exampleWorld exampleKey "[65, 61, 49]"]
  by (simp add: example_simps aeadCorrect_shiftCipher isHighSurrogate_def isLowSurrogate_def)
     blast

text \<open>
  The claim as written covers every string of at most 50 KiB. A string of one code unit,
  the high surrogate U+D800, is encrypted as the three bytes of U+FFFD and comes back as
  U+FFFD.
\<close>

theorem decryptEnv_encryptEnv_lone_surrogate:
  "length [0xD800 :: nat] \<le> 50 * 1024
   \<and> getMasterKey exampleWorld = Inr exampleKey \<and> length exampleKey = 32
   \<and> aeadCorrect (runtime exampleWorld)
   \<and> (\<exists>encryptedData iv authTag w1.
         encryptEnv [0xD800] exampleWorld = (Inr (encryptedData, iv, authTag), w1)
         \<and> decryptEnv encryptedData iv authTag w1 = (Inr [0xFFFD], w1))"
proof -
  have "encryptEnv [0xD800] exampleWorld =
          (Inr (map (\<lambda>b. b + shiftPad exampleKey (fst (randomBytes 16 exampleWorld)))
                  [0xEF, 0xBF, 0xBD],
                fst (randomBytes 16 exampleWorld),
                replicate 16 (shiftPad exampleKey (fst (randomBytes 16 exampleWorld)) mod 256)),
           exampleWorld\<lparr>drawn := 16\<rparr>)"
    by (simp add: encryptEnv_ok [of exampleWorld exampleKey] example_simps shiftCipher_def
          isHighSurrogate_def utf8OfCodePoint_def)
  moreover have
    "decryptEnv
       (map (\<lambda>b. b + shiftPad exampleKey (fst (randomBytes 16 exampleWorld))) [0xEF, 0xBF, 0xBD])
       (fst (randomBytes 16 exampleWorld))
       (replicate 16 (shiftPad exampleKey (fst (randomBytes 16 exampleWorld)) mod 256))
       (exampleWorld\<lparr>drawn := 16\<rparr>) = (Inr [0xFFFD], exampleWorld\<lparr>drawn := 16\<rparr>)"
    by (simp add: decryptEnv_def example_simps length_randomBytes IV_LENGTH_def
          AUTH_TAG_LENGTH_def shiftCipher_def secondByteOk_def isContinuation_def)
  ultimately show ?thesis
    by (simp add: example_simps aeadCorrect_shiftCipher)
qed

end
